theory Spec2Isabelle
  imports Main "HOL-Library.Sublist" "HOL-Library.Word"
begin

section \<open>Python values\<close>

text \<open>
  A Python \<open>str\<close> is a sequence of Unicode code points and \<open>len\<close>, slicing and
  \<open>startswith\<close> count code points, so a \<open>str\<close> is a list of code points here.
  A \<open>bytes\<close> object is a list of 8-bit words.
\<close>

type_synonym codepoint = nat
type_synonym pystr = "codepoint list"
type_synonym byte = "8 word"
type_synonym pybytes = "byte list"

definition str :: "string \<Rightarrow> pystr" where
  \<comment> \<open>an ASCII literal of the source\<close>
  "str s = map of_char s"

definition bytes :: "string \<Rightarrow> pybytes" where
  \<comment> \<open>an ASCII \<open>b'...'\<close> literal\<close>
  "bytes s = map of_char s"

definition CR :: codepoint where "CR = 13"
definition LF :: codepoint where "LF = 10"
definition SP :: codepoint where "SP = 32"

definition is_space :: "codepoint \<Rightarrow> bool" where
  \<comment> \<open>the code points \<open>str.strip()\<close> removes (CPython's \<open>_PyUnicode_IsWhitespace\<close>)\<close>
  "is_space c \<longleftrightarrow>
     (9 \<le> c \<and> c \<le> 13) \<or> (28 \<le> c \<and> c \<le> 32) \<or> c = 133 \<or> c = 160 \<or> c = 5760 \<or>
     (8192 \<le> c \<and> c \<le> 8202) \<or> c = 8232 \<or> c = 8233 \<or> c = 8239 \<or> c = 8287 \<or> c = 12288"

definition strip :: "pystr \<Rightarrow> pystr" where
  \<comment> \<open>\<open>s.strip()\<close>\<close>
  "strip s = rev (dropWhile is_space (rev (dropWhile is_space s)))"

definition replace :: "codepoint \<Rightarrow> codepoint \<Rightarrow> pystr \<Rightarrow> pystr" where
  \<comment> \<open>\<open>s.replace(a, b)\<close> for one-character strings \<open>a\<close> and \<open>b\<close>\<close>
  "replace a b s = map (\<lambda>c. if c = a then b else c) s"

definition lower :: "pystr \<Rightarrow> pystr" where
  \<comment> \<open>\<open>s.lower()\<close> on the ASCII letters. The source only compares the result with the
      one-character strings q, r, 1, 2, 3 and y, and no code point other than the ASCII
      capital lowers to one of these, so every comparison comes out as in Python.\<close>
  "lower s = map (\<lambda>c. if 65 \<le> c \<and> c \<le> 90 then c + 32 else c) s"

definition startswith :: "pystr \<Rightarrow> pystr \<Rightarrow> bool" where
  \<comment> \<open>\<open>s.startswith(p)\<close>\<close>
  "startswith s p = prefix p s"

fun contains :: "pystr \<Rightarrow> pystr \<Rightarrow> bool" where
  \<comment> \<open>\<open>sub in s\<close>\<close>
  "contains sub [] = (sub = [])"
| "contains sub (c # cs) = (prefix sub (c # cs) \<or> contains sub cs)"

definition slice_from :: "int \<Rightarrow> 'a list \<Rightarrow> 'a list" where
  \<comment> \<open>\<open>xs[i:]\<close>: a negative start counts from the end and is clamped at 0\<close>
  "slice_from i xs =
     (let n = int (length xs);
          start = (if i < 0 then max 0 (n + i) else min i n)
      in drop (nat start) xs)"

definition slice_to :: "nat \<Rightarrow> 'a list \<Rightarrow> 'a list" where
  \<comment> \<open>\<open>xs[:k]\<close> for a literal \<open>k \<ge> 0\<close>\<close>
  "slice_to k xs = take k xs"

definition or_str :: "pystr option \<Rightarrow> pystr \<Rightarrow> pystr" where
  \<comment> \<open>\<open>v or d\<close> for \<open>v\<close> a \<open>str\<close> or \<open>None\<close>: both \<open>None\<close> and the empty string are falsy\<close>
  "or_str v d = (case v of None \<Rightarrow> d | Some s \<Rightarrow> if s = [] then d else s)"

section \<open>Selection (lines 158-166 of \<open>interactive_loop\<close>)\<close>

definition select :: "pystr \<Rightarrow> 'a list \<Rightarrow> 'a list option" where
  \<comment> \<open>\<open>None\<close> is the \<open>else\<close> branch: "Invalid option. Try again."\<close>
  "select choice emails =
     (let n = length emails in
      if choice = str ''1'' then Some (if n \<ge> 1 then slice_from (- 1) emails else [])
      else if choice = str ''2'' then Some (if n \<ge> 1 then slice_from (- 3) emails else [])
      else if choice = str ''3'' then Some (slice_from 0 emails)
      else None)"

section \<open>Preview (line 84 of \<open>fetch_unseen\<close>)\<close>

definition preview_of :: "pystr \<Rightarrow> pystr" where
  "preview_of body = slice_to 400 (replace LF SP (replace CR SP (strip body)))"

definition collapse :: "pystr \<Rightarrow> pystr" where
  \<comment> \<open>the spec's wording: every carriage return and every newline becomes one space\<close>
  "collapse s = map (\<lambda>c. if c = CR \<or> c = LF then SP else c) s"

definition preview_spec :: "pystr \<Rightarrow> pystr" where
  \<comment> \<open>the spec's wording, in its order: collapse, trim, truncate\<close>
  "preview_spec body = take 400 (strip (collapse body))"

section \<open>Exceptions\<close>

datatype error =
    LookupError          \<comment> \<open>\<open>bytes.decode\<close>: unknown encoding\<close>
  | UnicodeDecodeError   \<comment> \<open>\<open>bytes.decode\<close> with \<open>errors='strict'\<close>\<close>
  | AttributeError       \<comment> \<open>\<open>None.decode\<close>\<close>
  | HeaderParseError     \<comment> \<open>\<open>decode_header\<close>\<close>
  | EOFError             \<comment> \<open>\<open>input()\<close> at the end of the operator's input\<close>
  | IMAPError            \<comment> \<open>raised by an \<open>imaplib\<close> call\<close>
  | OtherError pystr     \<comment> \<open>raised by \<open>messages.create\<close>, not a \<open>TwilioRestException\<close>\<close>

section \<open>Parsed mail messages (\<open>email.message.Message\<close>)\<close>

record headers =
  h_subject :: "pystr option"           \<comment> \<open>the \<open>Subject\<close> header, \<open>None\<close> when absent\<close>
  h_from :: "pystr option"
  h_date :: "pystr option"
  content_type :: pystr                 \<comment> \<open>\<open>get_content_type()\<close>\<close>
  content_disposition :: "pystr option" \<comment> \<open>\<open>get("Content-Disposition")\<close>\<close>
  content_charset :: "pystr option"     \<comment> \<open>\<open>get_content_charset()\<close>\<close>

datatype message =
    Single headers pybytes            \<comment> \<open>the bytes are \<open>get_payload(decode=True)\<close>\<close>
  | Multipart headers "message list"  \<comment> \<open>the payload is a list of sub-messages\<close>

fun hdrs :: "message \<Rightarrow> headers" where
  "hdrs (Single h b) = h"
| "hdrs (Multipart h ps) = h"

fun is_multipart :: "message \<Rightarrow> bool" where
  "is_multipart (Single h b) = False"
| "is_multipart (Multipart h ps) = True"

fun get_payload :: "message \<Rightarrow> pybytes option" where
  \<comment> \<open>\<open>get_payload(decode=True)\<close> is \<open>None\<close> for a multipart\<close>
  "get_payload (Single h b) = Some b"
| "get_payload (Multipart h ps) = None"

fun walk :: "message \<Rightarrow> message list" where
  \<comment> \<open>\<open>msg.walk()\<close>: the message itself, then its parts, depth first\<close>
  "walk (Single h b) = [Single h b]"
| "walk (Multipart h ps) = Multipart h ps # concat (map walk ps)"

definition get_header :: "pystr option \<Rightarrow> pystr" where
  \<comment> \<open>\<open>msg.get(name, "")\<close>\<close>
  "get_header v = (case v of None \<Rightarrow> [] | Some s \<Rightarrow> s)"

section \<open>Library functions the source calls\<close>

datatype errors = Strict | Ignore | Replace

datatype chunk =
    BytesChunk pybytes "pystr option"   \<comment> \<open>a pair \<open>(bytes, charset or None)\<close> of \<open>decode_header\<close>\<close>
  | StrChunk pystr                      \<comment> \<open>a pair \<open>(str, None)\<close>\<close>

text \<open>
  The standard library is a parameter of the model: \<open>bytes_decode b enc errs\<close> is
  \<open>b.decode(enc, errors=errs)\<close>, \<open>decode_header\<close> is \<open>email.header.decode_header\<close>
  and \<open>message_from_bytes\<close> is \<open>email.message_from_bytes\<close>, \<open>None\<close> when it raises.
\<close>

record pylib =
  bytes_decode :: "pybytes \<Rightarrow> pystr \<Rightarrow> errors \<Rightarrow> error + pystr"
  decode_header :: "pystr \<Rightarrow> error + chunk list"
  message_from_bytes :: "pybytes \<Rightarrow> message option"

section \<open>\<open>decode_mime\<close>\<close>

fun decode_chunks :: "pylib \<Rightarrow> chunk list \<Rightarrow> pystr \<Rightarrow> error + pystr" where
  \<comment> \<open>the \<open>for part, enc in parts\<close> loop; the last argument is \<open>decoded\<close>\<close>
  "decode_chunks lib [] decoded = Inr decoded"
| "decode_chunks lib (BytesChunk part enc # parts) decoded =
     (case bytes_decode lib part (or_str enc (str ''utf-8'')) Ignore of
        Inl ex \<Rightarrow> Inl ex
      | Inr t \<Rightarrow> decode_chunks lib parts (decoded @ t))"
| "decode_chunks lib (StrChunk part # parts) decoded = decode_chunks lib parts (decoded @ part)"

definition decode_mime :: "pylib \<Rightarrow> pystr \<Rightarrow> error + pystr" where
  "decode_mime lib s =
     (if s = [] then Inr []
      else case decode_header lib s of
             Inl ex \<Rightarrow> Inl ex
           | Inr parts \<Rightarrow> decode_chunks lib parts [])"

section \<open>\<open>get_body\<close>\<close>

definition decode_text :: "pylib \<Rightarrow> message \<Rightarrow> error + pystr" where
  \<comment> \<open>\<open>charset = part.get_content_charset() or "utf-8"\<close>, then
      \<open>part.get_payload(decode=True).decode(charset, errors="ignore")\<close>\<close>
  "decode_text lib part =
     (let charset = or_str (content_charset (hdrs part)) (str ''utf-8'') in
      case get_payload part of
        None \<Rightarrow> Inl AttributeError
      | Some b \<Rightarrow> bytes_decode lib b charset Ignore)"

definition is_plain :: "message \<Rightarrow> bool" where
  \<comment> \<open>the test of line 51\<close>
  "is_plain part =
     (let ct = content_type (hdrs part);
          disp = or_str (content_disposition (hdrs part)) []
      in ct = str ''text/plain'' \<and> \<not> contains (str ''attachment'') disp)"

definition is_html :: "message \<Rightarrow> bool" where
  \<comment> \<open>the test of line 56\<close>
  "is_html part = (content_type (hdrs part) = str ''text/html'')"

fun first_plain :: "pylib \<Rightarrow> message list \<Rightarrow> (error + pystr) option" where
  \<comment> \<open>the first loop over \<open>msg.walk()\<close>: \<open>Some r\<close> when it returns (or raises) \<open>r\<close>,
      \<open>None\<close> when it runs to its end\<close>
  "first_plain lib [] = None"
| "first_plain lib (part # parts) =
     (if is_plain part then Some (decode_text lib part) else first_plain lib parts)"

fun first_html :: "pylib \<Rightarrow> message list \<Rightarrow> (error + pystr) option" where
  \<comment> \<open>the second loop\<close>
  "first_html lib [] = None"
| "first_html lib (part # parts) =
     (if is_html part then Some (decode_text lib part) else first_html lib parts)"

definition get_body :: "pylib \<Rightarrow> message \<Rightarrow> error + pystr" where
  "get_body lib msg =
     (if is_multipart msg then
        (case first_plain lib (walk msg) of
           Some r \<Rightarrow> r
         | None \<Rightarrow>
             (case first_html lib (walk msg) of
                Some r \<Rightarrow> r
              | None \<Rightarrow> Inr []))
      else decode_text lib msg)"

section \<open>The mailbox and the gateway\<close>

datatype fetch_item =
    NoneItem                    \<comment> \<open>\<open>None\<close>\<close>
  | TupleItem pybytes pybytes   \<comment> \<open>a pair (envelope, RFC822 text)\<close>
  | BytesItem pybytes           \<comment> \<open>a bare \<open>bytes\<close> element, such as the closing \<open>b')'\<close>\<close>

datatype pyval = PyStr pystr | PyNone

datatype code_attr =
    NoCode       \<comment> \<open>the exception has no \<open>code\<close> attribute\<close>
  | CodeNone     \<comment> \<open>\<open>code\<close> is \<open>None\<close>\<close>
  | Code int

datatype create_outcome =
    Returned pyval                  \<comment> \<open>\<open>messages.create\<close> returned; the value is \<open>msg.sid\<close>\<close>
  | RestException pystr code_attr   \<comment> \<open>it raised \<open>TwilioRestException\<close> with this \<open>msg\<close> and \<open>code\<close>\<close>
  | OtherException pystr            \<comment> \<open>it raised an exception of another class\<close>

datatype event =
    Selected                      \<comment> \<open>\<open>imap.select("INBOX")\<close>\<close>
  | Searched                      \<comment> \<open>\<open>imap.search(None, '(UNSEEN)')\<close>\<close>
  | Fetched pybytes               \<comment> \<open>\<open>imap.fetch(eid, "(RFC822)")\<close>\<close>
  | Created pystr create_outcome  \<comment> \<open>\<open>client.messages.create(body=text)\<close> and how it ended\<close>
  | Stored pybytes                \<comment> \<open>\<open>imap.store(eid, '+FLAGS', '\\Seen')\<close>\<close>
  | LoggedOut                     \<comment> \<open>\<open>imap.logout()\<close>\<close>

text \<open>
  The mailbox server and the messaging gateway are parameters too. What a call answers may
  depend on every call made before it, so each answer is a function of the calls so far
  (a list of events, the latest last). \<open>imap_search\<close> answers the status and
  \<open>messages[0]\<close>; \<open>imap_fetch\<close> answers the status and \<open>data\<close>; \<open>imap_store\<close> answers
  \<open>None\<close> when the call returns and the exception when it raises. The calls \<open>select\<close>,
  \<open>search\<close> and \<open>fetch\<close> are taken to return; the source has no handler for them.
\<close>

record services =
  imap_search :: "event list \<Rightarrow> pystr \<times> pybytes"
  imap_fetch :: "event list \<Rightarrow> pybytes \<Rightarrow> pystr \<times> fetch_item list"
  imap_store :: "event list \<Rightarrow> pybytes \<Rightarrow> error option"
  messages_create :: "event list \<Rightarrow> pystr \<Rightarrow> create_outcome"

section \<open>\<open>fetch_unseen\<close>\<close>

record email =
  e_id :: pybytes
  e_subject :: pystr
  e_from :: pystr
  e_date :: pystr
  e_body :: pystr
  e_preview :: pystr

definition is_bspace :: "byte \<Rightarrow> bool" where
  \<comment> \<open>the ASCII whitespace \<open>bytes.split()\<close> splits at\<close>
  "is_bspace b \<longleftrightarrow> b = 32 \<or> b = 9 \<or> b = 10 \<or> b = 13 \<or> b = 11 \<or> b = 12"

fun split_acc :: "pybytes \<Rightarrow> pybytes \<Rightarrow> pybytes list" where
  \<comment> \<open>the first argument is the word being read, reversed\<close>
  "split_acc cur [] = (if cur = [] then [] else [rev cur])"
| "split_acc cur (b # bs) =
     (if is_bspace b then (if cur = [] then split_acc [] bs else rev cur # split_acc [] bs)
      else split_acc (b # cur) bs)"

definition bytes_split :: "pybytes \<Rightarrow> pybytes list" where
  \<comment> \<open>\<open>b.split()\<close>\<close>
  "bytes_split b = split_acc [] b"

fun parse_item :: "pylib \<Rightarrow> fetch_item \<Rightarrow> message option" where
  \<comment> \<open>the \<open>try\<close> block \<open>msg = email.message_from_bytes(data[0][1])\<close>; \<open>None\<close> when it raised.
      Indexing a \<open>bytes\<close> gives an \<open>int\<close> or raises, and \<open>message_from_bytes\<close> raises on an
      \<open>int\<close>.\<close>
  "parse_item lib (TupleItem envelope raw) = message_from_bytes lib raw"
| "parse_item lib (BytesItem b) = None"
| "parse_item lib NoneItem = None"

fun fetch_each ::
  "pylib \<Rightarrow> services \<Rightarrow> event list \<Rightarrow> pybytes list \<Rightarrow> email list \<Rightarrow> (error + email list) \<times> event list"
where
  \<comment> \<open>the \<open>for eid in email_ids\<close> loop; the last argument is \<open>results\<close>\<close>
  "fetch_each lib srv tr [] results = (Inr results, tr)"
| "fetch_each lib srv tr (eid # eids) results =
     (case imap_fetch srv tr eid of (res, data) \<Rightarrow>
      let tr1 = tr @ [Fetched eid] in
      if res \<noteq> str ''OK'' \<or> data = [] \<or> hd data = NoneItem then fetch_each lib srv tr1 eids results
      else
        (case parse_item lib (hd data) of
           None \<Rightarrow> fetch_each lib srv tr1 eids results
         | Some msg \<Rightarrow>
            (case decode_mime lib (get_header (h_subject (hdrs msg))) of
               Inl ex \<Rightarrow> (Inl ex, tr1)
             | Inr subject \<Rightarrow>
            (case decode_mime lib (get_header (h_from (hdrs msg))) of
               Inl ex \<Rightarrow> (Inl ex, tr1)
             | Inr sender \<Rightarrow>
            (case decode_mime lib (get_header (h_date (hdrs msg))) of
               Inl ex \<Rightarrow> (Inl ex, tr1)
             | Inr date \<Rightarrow>
            (case get_body lib msg of
               Inl ex \<Rightarrow> (Inl ex, tr1)
             | Inr b \<Rightarrow>
                let body = or_str (Some b) [];
                    preview = preview_of body
                in fetch_each lib srv tr1 eids
                     (results @ [\<lparr>e_id = eid, e_subject = subject, e_from = sender,
                                  e_date = date, e_body = body, e_preview = preview\<rparr>])))))))"

definition fetch_unseen :: "pylib \<Rightarrow> services \<Rightarrow> event list \<Rightarrow> (error + email list) \<times> event list" where
  "fetch_unseen lib srv tr =
     (let tr1 = tr @ [Selected] in
      case imap_search srv tr1 of (status, messages0) \<Rightarrow>
      let tr2 = tr1 @ [Searched] in
      if status \<noteq> str ''OK'' then (Inr [], tr2)
      else fetch_each lib srv tr2 (bytes_split messages0) [])"

section \<open>\<open>send_whatsapp\<close> and \<open>send_batch\<close>\<close>

function digits :: "nat \<Rightarrow> pystr" where
  "digits n = (if n < 10 then [48 + n] else digits (n div 10) @ [48 + n mod 10])"
  by pat_completeness auto
termination
  by (relation "measure id") auto

definition str_int :: "int \<Rightarrow> pystr" where
  \<comment> \<open>\<open>str(i)\<close>\<close>
  "str_int i = (if i < 0 then 45 # digits (nat (- i)) else digits (nat i))"

definition format_code :: "code_attr \<Rightarrow> pystr" where
  \<comment> \<open>\<open>{getattr(e, 'code', 'N/A')}\<close> inside the f-string\<close>
  "format_code c = (case c of NoCode \<Rightarrow> str ''N/A'' | CodeNone \<Rightarrow> str ''None'' | Code i \<Rightarrow> str_int i)"

definition create_result :: "create_outcome \<Rightarrow> error + pyval" where
  \<comment> \<open>the \<open>try\<close>/\<open>except TwilioRestException\<close> of \<open>send_whatsapp\<close>, by how \<open>create\<close> ended\<close>
  "create_result oc =
     (case oc of
        Returned sid \<Rightarrow> Inr sid
      | RestException msg code \<Rightarrow>
          Inr (PyStr (str ''ERROR: '' @ msg @ str '' (code '' @ format_code code @ str '')''))
      | OtherException ex \<Rightarrow> Inl (OtherError ex))"

definition send_whatsapp :: "services \<Rightarrow> event list \<Rightarrow> pystr \<Rightarrow> error + pyval" where
  "send_whatsapp srv tr text = create_result (messages_create srv tr text)"

definition payload_text :: "email \<Rightarrow> pystr" where
  \<comment> \<open>\<open>header + body_text\<close> of lines 112-114; 128231 and 128172 are the two emoji\<close>
  "payload_text e =
     ([128231] @ str '' From: '' @ e_from e @ [LF] @ [128172] @ str '' Subject: '' @ e_subject e
        @ [LF] @ str ''Date: '' @ e_date e @ [LF, LF])
     @ slice_to 1000 (e_body e)"

definition delivered :: "pyval \<Rightarrow> bool" where
  \<comment> \<open>the test of line 119: \<open>isinstance(result, str) and not result.startswith("ERROR")\<close>\<close>
  "delivered result = (case result of PyStr s \<Rightarrow> \<not> startswith s (str ''ERROR'') | PyNone \<Rightarrow> False)"

fun send_each :: "services \<Rightarrow> event list \<Rightarrow> email list \<Rightarrow> error option \<times> event list" where
  \<comment> \<open>the \<open>for i, e in enumerate(emails, start=1)\<close> loop; \<open>Some ex\<close> when it raised\<close>
  "send_each srv tr [] = (None, tr)"
| "send_each srv tr (e # es) =
     (let text = payload_text e;
          tr1 = tr @ [Created text (messages_create srv tr text)]
      in case send_whatsapp srv tr text of
           Inl ex \<Rightarrow> (Some ex, tr1)
         | Inr result \<Rightarrow>
             if delivered result then
               (case imap_store srv tr1 (e_id e) of
                  None \<Rightarrow> send_each srv (tr1 @ [Stored (e_id e)]) es
                | Some ex \<Rightarrow> send_each srv (tr1 @ [Stored (e_id e)]) es)
             else send_each srv tr1 es)"

definition send_batch :: "services \<Rightarrow> event list \<Rightarrow> email list \<Rightarrow> error option \<times> event list" where
  "send_batch srv tr emails = (if emails = [] then (None, tr) else send_each srv tr emails)"

section \<open>\<open>interactive_loop\<close>\<close>

datatype flow = Continue | Break | Raise error

datatype notice =
    NoNotice
  | NoUnread        \<comment> \<open>"No unread messages to send. Refresh or Quit."\<close>
  | InvalidOption   \<comment> \<open>"Invalid option. Try again."\<close>
  | Cancelled       \<comment> \<open>"Cancelled. No messages were sent."\<close>
  | Dispatched      \<comment> \<open>\<open>send_batch\<close> was called\<close>

text \<open>
  One pass through the body of \<open>while True\<close>. The operator's answers are the list of the
  strings \<open>input()\<close> returns; \<open>input()\<close> raises \<open>EOFError\<close> when the list is used up. The
  result is how the pass ends, which message it printed, the calls made so far and the
  answers not yet read.
\<close>

definition iteration ::
  "pylib \<Rightarrow> services \<Rightarrow> event list \<Rightarrow> pystr list \<Rightarrow> flow \<times> notice \<times> event list \<times> pystr list"
where
  "iteration lib srv tr inputs =
     (case fetch_unseen lib srv tr of
        (Inl ex, tr1) \<Rightarrow> (Raise ex, NoNotice, tr1, inputs)
      | (Inr emails, tr1) \<Rightarrow>
          let n = length emails in
          (case inputs of
             [] \<Rightarrow> (Raise EOFError, NoNotice, tr1, [])
           | c # ins \<Rightarrow>
               let choice = lower (strip c) in
               if choice = str ''q'' then (Break, NoNotice, tr1, ins)
               else if choice = str ''r'' then (Continue, NoNotice, tr1, ins)
               else if n = 0 then (Continue, NoUnread, tr1, ins)
               else
                 (case select choice emails of
                    None \<Rightarrow> (Continue, InvalidOption, tr1, ins)
                  | Some selected \<Rightarrow>
                      (case ins of
                         [] \<Rightarrow> (Raise EOFError, NoNotice, tr1, [])
                       | cf # ins2 \<Rightarrow>
                           let confirm = lower (strip cf);
                               sent = (if confirm = str ''y'' then send_batch srv tr1 selected
                                       else (None, tr1));
                               said = (if confirm = str ''y'' then Dispatched else Cancelled)
                           in (case sent of
                                 (Some ex, tr2) \<Rightarrow> (Raise ex, said, tr2, ins2)
                               | (None, tr2) \<Rightarrow>
                                   (case ins2 of
                                      [] \<Rightarrow> (Raise EOFError, said, tr2, [])
                                    | ct # ins3 \<Rightarrow>
                                        let cont = lower (strip ct) in
                                        if cont \<noteq> str ''y'' then (Break, said, tr2, ins3)
                                        else (Continue, said, tr2, ins3)))))))"

function run :: "pylib \<Rightarrow> services \<Rightarrow> event list \<Rightarrow> pystr list \<Rightarrow> error option \<times> event list" where
  \<comment> \<open>the \<open>while True\<close> loop: \<open>None\<close> when it ends by \<open>break\<close>, \<open>Some ex\<close> when it raises\<close>
  "run lib srv tr inputs =
     (case iteration lib srv tr inputs of
        (Continue, said, tr', ins') \<Rightarrow> run lib srv tr' ins'
      | (Break, said, tr', ins') \<Rightarrow> (None, tr')
      | (Raise ex, said, tr', ins') \<Rightarrow> (Some ex, tr'))"
  by pat_completeness auto
termination
proof (relation "measure (\<lambda>(lib, srv, tr, inputs). length inputs)")
  show "wf (measure (\<lambda>(lib, srv, tr, inputs). length inputs))" by simp
next
  fix lib srv tr inputs x1 x2 said y tr' ins'
  assume "(x1, x2) = iteration lib srv tr inputs" "x1 = Continue" "(said, y) = x2" "(tr', ins') = y"
  then have it: "iteration lib srv tr inputs = (Continue, said, tr', ins')" by simp
  have "length ins' < length inputs"
    using it unfolding iteration_def Let_def
    by (auto split: prod.splits sum.splits list.splits option.splits if_splits)
  then show "((lib, srv, tr', ins'), (lib, srv, tr, inputs))
      \<in> measure (\<lambda>(lib, srv, tr, inputs). length inputs)"
    by simp
qed

declare run.simps [simp del]

definition interactive_loop :: "pylib \<Rightarrow> services \<Rightarrow> pystr list \<Rightarrow> error option \<times> event list" where
  \<comment> \<open>the loop inside \<open>try\<close>, then \<open>imap.logout()\<close> in \<open>finally\<close>; \<open>connect_imap()\<close> is
      taken to have returned\<close>
  "interactive_loop lib srv inputs =
     (case run lib srv [] inputs of (r, tr) \<Rightarrow> (r, tr @ [LoggedOut]))"

section \<open>Reading a list of calls\<close>

fun is_dispatch :: "event \<Rightarrow> bool" where
  "is_dispatch (Created text oc) = True"
| "is_dispatch (Stored eid) = True"
| "is_dispatch ev = False"

definition dispatches :: "event list \<Rightarrow> event list" where
  \<comment> \<open>the gateway sends and the seen-flag updates among the calls\<close>
  "dispatches tr = filter is_dispatch tr"

fun outcomes :: "event list \<Rightarrow> create_outcome list" where
  \<comment> \<open>how each \<open>create\<close> call ended, in call order\<close>
  "outcomes [] = []"
| "outcomes (Created text oc # evs) = oc # outcomes evs"
| "outcomes (ev # evs) = outcomes evs"

fun sent_texts :: "event list \<Rightarrow> pystr list" where
  "sent_texts [] = []"
| "sent_texts (Created text oc # evs) = text # sent_texts evs"
| "sent_texts (ev # evs) = sent_texts evs"

fun stored_ids :: "event list \<Rightarrow> pybytes list" where
  "stored_ids [] = []"
| "stored_ids (Stored eid # evs) = eid # stored_ids evs"
| "stored_ids (ev # evs) = stored_ids evs"

definition is_delivered :: "create_outcome \<Rightarrow> bool" where
  \<comment> \<open>the send ended in a result that line 119 takes for a delivery\<close>
  "is_delivered oc = (case create_result oc of Inr result \<Rightarrow> delivered result | Inl ex \<Rightarrow> False)"

definition record_calls :: "email \<Rightarrow> create_outcome \<Rightarrow> event list" where
  \<comment> \<open>the calls one record causes: one send, then one seen-flag update if it was delivered\<close>
  "record_calls e oc =
     Created (payload_text e) oc # (if is_delivered oc then [Stored (e_id e)] else [])"

section \<open>The spec's reading of body extraction\<close>

definition disposition_text :: "message \<Rightarrow> pystr" where
  \<comment> \<open>the value of the part's \<open>Content-Disposition\<close> header, empty when there is none\<close>
  "disposition_text p = (case content_disposition (hdrs p) of None \<Rightarrow> [] | Some d \<Rightarrow> d)"

definition names_attachment :: "message \<Rightarrow> bool" where
  \<comment> \<open>the header value contains the lower-case word \<open>attachment\<close> somewhere\<close>
  "names_attachment p \<longleftrightarrow> sublist (str ''attachment'') (disposition_text p)"

definition declared_attachment :: "message \<Rightarrow> bool" where
  \<comment> \<open>the spec's "declared attachment": the disposition type, that is the header value up to
      its first semicolon (code point 59), trimmed and lower-cased, is \<open>attachment\<close>; this is
      what \<open>get_content_disposition()\<close> reports\<close>
  "declared_attachment p \<longleftrightarrow>
     lower (strip (takeWhile (\<lambda>c. c \<noteq> 59) (disposition_text p))) = str ''attachment''"

definition part_text :: "pylib \<Rightarrow> message \<Rightarrow> error + pystr" where
  \<comment> \<open>the spec's "decoded text" of a part: its payload bytes decoded with the part's charset,
      UTF-8 when it has none, leaving out what does not decode; a multipart has no payload
      bytes to decode\<close>
  "part_text lib p =
     (case p of
        Single h b \<Rightarrow>
          bytes_decode lib b
            (case content_charset h of
               None \<Rightarrow> str ''utf-8''
             | Some cs \<Rightarrow> if cs = [] then str ''utf-8'' else cs)
            Ignore
      | Multipart h ps \<Rightarrow> Inl AttributeError)"

definition body_by :: "(message \<Rightarrow> bool) \<Rightarrow> pylib \<Rightarrow> message \<Rightarrow> error + pystr" where
  \<comment> \<open>the spec's priority order, for a given reading \<open>excluded\<close> of "is an attachment"\<close>
  "body_by excluded lib msg =
     (case msg of
        Single h b \<Rightarrow> part_text lib msg
      | Multipart h ps \<Rightarrow>
          (case find (\<lambda>p. content_type (hdrs p) = str ''text/plain'' \<and> \<not> excluded p) (walk msg) of
             Some p \<Rightarrow> part_text lib p
           | None \<Rightarrow>
               (case find (\<lambda>p. content_type (hdrs p) = str ''text/html'') (walk msg) of
                  Some p \<Rightarrow> part_text lib p
                | None \<Rightarrow> Inr [])))"

section \<open>Reading the outcomes of a dispatching pass\<close>

definition raised :: "create_outcome \<Rightarrow> bool" where
  \<comment> \<open>\<open>create\<close> raised an exception that \<open>send_whatsapp\<close> does not catch\<close>
  "raised oc \<longleftrightarrow> (\<exists>ex. oc = OtherException ex)"

definition ending :: "create_outcome list \<Rightarrow> error option" where
  \<comment> \<open>how a pass with these send outcomes ends: by the exception of its last send if that one
      raised, normally otherwise\<close>
  "ending ocs =
     (if ocs = [] then None
      else case last ocs of OtherException ex \<Rightarrow> Some (OtherError ex) | _ \<Rightarrow> None)"

section \<open>Charsets that always decode\<close>




section \<open>A small library and mailbox to run the model on\<close>

text \<open>
  \<open>sample_decode\<close> is \<open>bytes.decode\<close> for the encoding names \<open>utf-8\<close>, \<open>ascii\<close> and
  \<open>us-ascii\<close>; any other name is taken to be unknown, which holds in Python for the one
  other name used below, \<open>x-unknown\<close>. A decoder first cuts the bytes into code points and
  undecodable pieces (\<open>None\<close>), then \<open>errors\<close> says what becomes of the pieces.
\<close>

definition is_cont :: "nat \<Rightarrow> bool" where
  "is_cont b \<longleftrightarrow> 128 \<le> b \<and> b \<le> 191"

definition second3 :: "nat \<Rightarrow> nat \<Rightarrow> bool" where
  \<comment> \<open>the second byte allowed after the lead byte \<open>b\<close> of a three-byte sequence\<close>
  "second3 b c \<longleftrightarrow>
     (if b = 224 then 160 \<le> c \<and> c \<le> 191 else if b = 237 then 128 \<le> c \<and> c \<le> 159 else is_cont c)"

definition second4 :: "nat \<Rightarrow> nat \<Rightarrow> bool" where
  "second4 b c \<longleftrightarrow>
     (if b = 240 then 144 \<le> c \<and> c \<le> 191 else if b = 244 then 128 \<le> c \<and> c \<le> 143 else is_cont c)"

fun utf8_scan :: "nat list \<Rightarrow> codepoint option list" where
  "utf8_scan [] = []"
| "utf8_scan (b # bs) =
     (if b < 128 then Some b # utf8_scan bs
      else if 194 \<le> b \<and> b \<le> 223 then
        (case bs of
           [] \<Rightarrow> [None]
         | c1 # r1 \<Rightarrow>
             if is_cont c1 then Some ((b - 192) * 64 + (c1 - 128)) # utf8_scan r1
             else None # utf8_scan bs)
      else if 224 \<le> b \<and> b \<le> 239 then
        (case bs of
           [] \<Rightarrow> [None]
         | c1 # r1 \<Rightarrow>
             if \<not> second3 b c1 then None # utf8_scan bs
             else
               (case r1 of
                  [] \<Rightarrow> [None]
                | c2 # r2 \<Rightarrow>
                    if is_cont c2
                    then Some ((b - 224) * 4096 + (c1 - 128) * 64 + (c2 - 128)) # utf8_scan r2
                    else None # utf8_scan r1))
      else if 240 \<le> b \<and> b \<le> 244 then
        (case bs of
           [] \<Rightarrow> [None]
         | c1 # r1 \<Rightarrow>
             if \<not> second4 b c1 then None # utf8_scan bs
             else
               (case r1 of
                  [] \<Rightarrow> [None]
                | c2 # r2 \<Rightarrow>
                    if \<not> is_cont c2 then None # utf8_scan r1
                    else
                      (case r2 of
                         [] \<Rightarrow> [None]
                       | c3 # r3 \<Rightarrow>
                           if is_cont c3
                           then Some ((b - 240) * 262144 + (c1 - 128) * 4096 + (c2 - 128) * 64
                                      + (c3 - 128)) # utf8_scan r3
                           else None # utf8_scan r2)))
      else None # utf8_scan bs)"

definition ascii_scan :: "nat list \<Rightarrow> codepoint option list" where
  "ascii_scan bs = map (\<lambda>b. if b < 128 then Some b else None) bs"

definition apply_errors :: "errors \<Rightarrow> codepoint option list \<Rightarrow> error + pystr" where
  "apply_errors errs items =
     (case errs of
        Strict \<Rightarrow> if None \<in> set items then Inl UnicodeDecodeError
                  else Inr (concat (map (\<lambda>i. case i of None \<Rightarrow> [] | Some c \<Rightarrow> [c]) items))
      | Ignore \<Rightarrow> Inr (concat (map (\<lambda>i. case i of None \<Rightarrow> [] | Some c \<Rightarrow> [c]) items))
      | Replace \<Rightarrow> Inr (map (\<lambda>i. case i of None \<Rightarrow> 65533 | Some c \<Rightarrow> c) items))"

definition sample_decode :: "pybytes \<Rightarrow> pystr \<Rightarrow> errors \<Rightarrow> error + pystr" where
  "sample_decode b enc errs =
     (if enc = str ''utf-8'' then apply_errors errs (utf8_scan (map unat b))
      else if enc = str ''ascii'' \<or> enc = str ''us-ascii'' then apply_errors errs (ascii_scan (map unat b))
      else Inl LookupError)"

definition plain_headers :: "pystr option \<Rightarrow> pystr option \<Rightarrow> headers" where
  \<comment> \<open>a message with at most a \<open>Subject\<close> and a charset: its content type is the default
      \<open>text/plain\<close>\<close>
  "plain_headers subj cs =
     \<lparr>h_subject = subj, h_from = None, h_date = None, content_type = str ''text/plain'',
      content_disposition = None, content_charset = cs\<rparr>"

definition raw_a :: pybytes where
  "raw_a = bytes ''Subject: A'' @ [13, 10, 13, 10] @ bytes ''hello''"

definition raw_b :: pybytes where
  "raw_b = bytes ''Subject: B'' @ [13, 10, 13, 10] @ bytes ''  big'' @ [13, 10] @ bytes ''world ''"

definition raw_x :: pybytes where
  "raw_x = bytes ''Content-Type: text/plain; charset=x-unknown'' @ [13, 10, 13, 10] @ bytes ''hi''"

definition msg_a :: message where
  "msg_a = Single (plain_headers (Some (str ''A'')) None) (bytes ''hello'')"

definition msg_b :: message where
  "msg_b = Single (plain_headers (Some (str ''B'')) None)
             (bytes ''  big'' @ [13, 10] @ bytes ''world '')"

definition msg_x :: message where
  "msg_x = Single (plain_headers None (Some (str ''x-unknown''))) (bytes ''hi'')"

definition msg_alt :: message where
  \<comment> \<open>a \<open>multipart/alternative\<close> message: the HTML part first, the plain part second\<close>
  "msg_alt =
     Multipart ((plain_headers None None)\<lparr>content_type := str ''multipart/alternative''\<rparr>)
       [Single ((plain_headers None None)\<lparr>content_type := str ''text/html''\<rparr>) (bytes ''<p>hi</p>''),
        Single (plain_headers None None) (bytes ''hi'')]"

definition sample_lib :: pylib where
  \<comment> \<open>\<open>decode_header\<close> on a value with no encoded word gives the value back as one
      \<open>str\<close> chunk; \<open>message_from_bytes\<close> is given on the three raw messages above\<close>
  "sample_lib =
     \<lparr>bytes_decode = sample_decode,
      decode_header = (\<lambda>s. Inr [StrChunk s]),
      message_from_bytes =
        (\<lambda>raw. if raw = raw_a then Some msg_a else if raw = raw_b then Some msg_b
               else if raw = raw_x then Some msg_x else None)\<rparr>"

definition sample_fetch :: "pybytes \<Rightarrow> pystr \<times> fetch_item list" where
  \<comment> \<open>a mailbox holding the three messages under the ids 1, 2 and 3; for any other id the
      server answers \<open>OK\<close> with no data, as \<open>imaplib\<close> reports a message that is not there\<close>
  "sample_fetch eid =
     (if eid = bytes ''1'' then (str ''OK'', [TupleItem (bytes ''1 (RFC822 {19}'') raw_a, BytesItem (bytes '')'')])
      else if eid = bytes ''2'' then (str ''OK'', [TupleItem (bytes ''2 (RFC822 {27}'') raw_b, BytesItem (bytes '')'')])
      else if eid = bytes ''3'' then (str ''OK'', [TupleItem (bytes ''3 (RFC822 {49}'') raw_x, BytesItem (bytes '')'')])
      else (str ''OK'', [NoneItem]))"

definition scripted :: "(nat \<Rightarrow> pystr \<times> pybytes) \<Rightarrow> (nat \<Rightarrow> create_outcome) \<Rightarrow> services" where
  \<comment> \<open>the \<open>k\<close>-th search is answered by \<open>searches k\<close> and the \<open>k\<close>-th send ends as
      \<open>creates k\<close> (counting from 0); every \<open>store\<close> returns\<close>
  "scripted searches creates =
     \<lparr>imap_search = (\<lambda>tr. searches (length (filter (\<lambda>ev. ev = Searched) tr))),
      imap_fetch = (\<lambda>tr eid. sample_fetch eid),
      imap_store = (\<lambda>tr eid. None),
      messages_create = (\<lambda>tr text. creates (length (outcomes tr)))\<rparr>"

definition quiet_inbox :: "pybytes \<Rightarrow> services" where
  \<comment> \<open>every search lists the ids \<open>ids\<close>; every send is delivered\<close>
  "quiet_inbox ids = scripted (\<lambda>k. (str ''OK'', ids)) (\<lambda>k. Returned (PyStr (str ''SM1'')))"

definition email_a :: email where
  "email_a = \<lparr>e_id = bytes ''1'', e_subject = str ''A'', e_from = [], e_date = [],
              e_body = str ''hello'', e_preview = str ''hello''\<rparr>"

definition email_b :: email where
  "email_b = \<lparr>e_id = bytes ''2'', e_subject = str ''B'', e_from = [], e_date = [],
              e_body = str ''  big'' @ [CR, LF] @ str ''world '', e_preview = str ''big  world''\<rparr>"

definition rejected :: create_outcome where
  \<comment> \<open>Twilio's answer to a recipient number that is not valid\<close>
  "rejected = RestException (str ''Invalid To number'') (Code 21211)"

definition offline :: services where
  \<comment> \<open>the network is down: every \<open>create\<close> raises an HTTP client exception\<close>
  "offline = scripted (\<lambda>k. (str ''OK'', [])) (\<lambda>k. OtherException (str ''ConnectionError''))"




definition moving_inbox :: services where
  \<comment> \<open>the first search lists message 1; by the next search it has been read elsewhere and
      message 2 has arrived\<close>
  "moving_inbox = scripted (\<lambda>k. (str ''OK'', if k = 0 then bytes ''1'' else bytes ''2''))
                           (\<lambda>k. Returned (PyStr (str ''SM1'')))"

definition msg_files :: message where
  \<comment> \<open>a \<open>multipart/mixed\<close> message of two \<open>text/plain\<close> parts: an inline one whose file name
      contains the word attachment, then one declared \<open>ATTACHMENT\<close>; 34 is the double quote\<close>
  "msg_files =
     Multipart ((plain_headers None None)\<lparr>content_type := str ''multipart/mixed''\<rparr>)
       [Single ((plain_headers None None)
                  \<lparr>content_disposition := Some (str ''inline; filename='' @ [34] @ str ''attachment.txt'' @ [34])\<rparr>)
               (bytes ''inline text''),
        Single ((plain_headers None None)
                  \<lparr>content_disposition := Some (str ''ATTACHMENT; filename='' @ [34] @ str ''a.txt'' @ [34])\<rparr>)
               (bytes ''file text'')]"

definition msg_attached :: message where
  \<comment> \<open>a \<open>text/plain\<close> attachment, then an HTML part, then a plain part with no disposition\<close>
  "msg_attached =
     Multipart ((plain_headers None None)\<lparr>content_type := str ''multipart/mixed''\<rparr>)
       [Single ((plain_headers None None)
                  \<lparr>content_disposition := Some (str ''attachment; filename='' @ [34] @ str ''a.txt'' @ [34])\<rparr>)
               (bytes ''file text''),
        Single ((plain_headers None None)\<lparr>content_type := str ''text/html''\<rparr>) (bytes ''<p>hi</p>''),
        Single (plain_headers None None) (bytes ''second'')]"

definition msg_attached_html :: message where
  \<comment> \<open>a \<open>text/plain\<close> attachment, then an HTML part\<close>
  "msg_attached_html =
     Multipart ((plain_headers None None)\<lparr>content_type := str ''multipart/mixed''\<rparr>)
       [Single ((plain_headers None None)
                  \<lparr>content_disposition := Some (str ''attachment; filename='' @ [34] @ str ''a.txt'' @ [34])\<rparr>)
               (bytes ''file text''),
        Single ((plain_headers None None)\<lparr>content_type := str ''text/html''\<rparr>) (bytes ''<p>hi</p>'')]"

definition flaky :: services where
  \<comment> \<open>the first \<open>create\<close> raises an HTTP client exception, every later one is delivered\<close>
  "flaky = scripted (\<lambda>k. (str ''OK'', []))
             (\<lambda>k. if k = 0 then OtherException (str ''ConnectionError'') else Returned (PyStr (str ''SM2'')))"


section \<open>Evaluating the model\<close>

lemmas sample_defs = sample_lib_def scripted_def quiet_inbox_def email_a_def email_b_def
  rejected_def sample_fetch_def raw_a_def raw_b_def raw_x_def
  msg_a_def msg_b_def msg_x_def msg_alt_def plain_headers_def sample_decode_def apply_errors_def
  ascii_scan_def is_cont_def second3_def second4_def

lemmas py_defs = str_def bytes_def strip_def replace_def lower_def startswith_def slice_from_def
  slice_to_def or_str_def CR_def LF_def SP_def is_space_def get_header_def Let_def

lemmas model_defs = fetch_unseen_def bytes_split_def is_bspace_def decode_mime_def get_body_def
  decode_text_def preview_of_def select_def is_plain_def is_html_def

section \<open>Selection\<close>

lemma drop_last1: "xs \<noteq> [] \<Longrightarrow> drop (length xs - Suc 0) xs = [last xs]"
proof -
  assume "xs \<noteq> []"
  then have "xs = butlast xs @ [last xs]" by simp
  then have "drop (length (butlast xs)) xs = [last xs]"
    by (metis append_eq_conv_conj)
  then show ?thesis by simp
qed

lemma slice_from_neg: "k > 0 \<Longrightarrow> slice_from (- int k) xs = drop (length xs - k) xs"
  by (auto simp: slice_from_def Let_def max_def nat_diff_distrib' intro: arg_cong[where f="\<lambda>n. drop n xs"])

lemma slice_from_0: "slice_from 0 xs = xs"
  by (simp add: slice_from_def)

text \<open>
  C2. For every list of records, the choice \<open>1\<close> (LAST_ONE) selects exactly the last
  record, or nothing when the list is empty; the choice \<open>2\<close> (LAST_THREE) selects the
  final \<open>min 3 n\<close> records, a suffix of the list and so in their original order; the
  choice \<open>3\<close> (ALL) selects the whole list unchanged.
\<close>

theorem select_policy:
  "select (str ''1'') xs = Some (if xs = [] then [] else [last xs]) \<and>
   select (str ''2'') xs = Some (drop (length xs - 3) xs) \<and>
   length (drop (length xs - 3) xs) = min 3 (length xs) \<and>
   suffix (drop (length xs - 3) xs) xs \<and>
   select (str ''3'') xs = Some xs"
proof -
  have one: "select (str ''1'') xs = Some (if xs = [] then [] else [last xs])"
    using slice_from_neg[of 1 xs] drop_last1[of xs]
    by (cases xs) (simp_all add: select_def str_def)
  have three: "select (str ''2'') xs = Some (drop (length xs - 3) xs)"
    using slice_from_neg[of 3 xs]
    by (cases xs) (simp_all add: select_def str_def)
  have all: "select (str ''3'') xs = Some xs"
    by (simp add: select_def str_def slice_from_0)
  have len: "length (drop (length xs - 3) xs) = min 3 (length xs)"
    by simp
  from one three all len show ?thesis
    by (simp add: suffix_drop)
qed

theorem select_policy_witness:
  "select (str ''1'') [10, 20, 30, 40, 50 :: nat] = Some [50] \<and>
   select (str ''2'') [10, 20, 30, 40, 50 :: nat] = Some [30, 40, 50] \<and>
   select (str ''2'') [10, 20 :: nat] = Some [10, 20] \<and>
   select (str ''1'') ([] :: nat list) = Some [] \<and>
   select (str ''3'') [10, 20, 30, 40, 50 :: nat] = Some [10, 20, 30, 40, 50]"
  using select_policy[of "[10, 20, 30, 40, 50 :: nat]"] select_policy[of "[10, 20 :: nat]"]
    select_policy[of "[] :: nat list"]
  by simp

section \<open>Body extraction\<close>

lemma contains_sublist: "contains sub s \<longleftrightarrow> sublist sub s"
  by (induction s) (simp_all add: sublist_Cons_right)

lemma first_plain_find:
  "first_plain lib ps = map_option (decode_text lib) (find is_plain ps)"
  by (induction ps) simp_all

lemma first_html_find:
  "first_html lib ps = map_option (decode_text lib) (find is_html ps)"
  by (induction ps) simp_all

lemma or_str_empty: "or_str v [] = (case v of None \<Rightarrow> [] | Some d \<Rightarrow> d)"
  by (simp add: or_str_def split: option.splits)

lemma is_plain_reading:
  "is_plain = (\<lambda>p. content_type (hdrs p) = str ''text/plain'' \<and> \<not> names_attachment p)"
  by (simp add: fun_eq_iff is_plain_def Let_def or_str_empty names_attachment_def
      disposition_text_def contains_sublist)

lemma is_html_reading: "is_html = (\<lambda>p. content_type (hdrs p) = str ''text/html'')"
  by (simp add: fun_eq_iff is_html_def)

lemma decode_text_part_text: "decode_text lib p = part_text lib p"
  by (cases p) (simp_all add: decode_text_def part_text_def or_str_def split: option.splits)

lemma body_by_single: "\<not> is_multipart msg \<Longrightarrow> body_by excluded lib msg = part_text lib msg"
  by (cases msg) (simp_all add: body_by_def)

lemma body_by_multi:
  "is_multipart msg \<Longrightarrow>
   body_by excluded lib msg =
     (case find (\<lambda>p. content_type (hdrs p) = str ''text/plain'' \<and> \<not> excluded p) (walk msg) of
        Some p \<Rightarrow> part_text lib p
      | None \<Rightarrow>
          (case find (\<lambda>p. content_type (hdrs p) = str ''text/html'') (walk msg) of
             Some p \<Rightarrow> part_text lib p
           | None \<Rightarrow> Inr []))"
  by (cases msg) (auto simp add: body_by_def simp del: walk.simps split: option.splits)

lemma get_body_by_names: "get_body lib msg = body_by names_attachment lib msg"
proof (cases "is_multipart msg")
  case False
  then show ?thesis
    by (simp add: get_body_def body_by_single decode_text_part_text)
next
  case True
  have "get_body lib msg =
      (case find is_plain (walk msg) of
         Some p \<Rightarrow> decode_text lib p
       | None \<Rightarrow> (case find is_html (walk msg) of Some p \<Rightarrow> decode_text lib p | None \<Rightarrow> Inr []))"
    using True
    by (simp add: get_body_def first_plain_find first_html_find split: option.splits)
  also have "\<dots> = body_by names_attachment lib msg"
    unfolding body_by_multi[OF True] is_plain_reading is_html_reading decode_text_part_text ..
  finally show ?thesis .
qed

lemma body_by_cong:
  assumes "\<forall>p\<in>set (walk msg). ex1 p \<longleftrightarrow> ex2 p"
  shows "body_by ex1 lib msg = body_by ex2 lib msg"
proof (cases "is_multipart msg")
  case False
  then show ?thesis by (simp add: body_by_single)
next
  case True
  have "find (\<lambda>p. content_type (hdrs p) = str ''text/plain'' \<and> \<not> ex1 p) (walk msg)
      = find (\<lambda>p. content_type (hdrs p) = str ''text/plain'' \<and> \<not> ex2 p) (walk msg)"
    using assms by (intro find_cong) auto
  then show ?thesis
    unfolding body_by_multi[OF True] by (rule arg_cong)
qed

text \<open>
  C6, as amended. The body of a multipart message is the decoded text of the first part, in
  the order of \<open>walk\<close>, that has content type \<open>text/plain\<close> and whose \<open>Content-Disposition\<close>
  value does not contain the lower-case word \<open>attachment\<close>; if there is no such part, the
  decoded text of the first \<open>text/html\<close> part; if there is none either, the empty string.
  The body of a message that is not multipart is its own payload, decoded. (Decoding may
  raise; then the body is that exception.) This is the body the claim describes, with
  "declared attachment" read as the disposition type, for every message on whose parts the
  two readings agree.
\<close>

theorem get_body_priority:
  "get_body lib msg = body_by names_attachment lib msg \<and>
   ((\<forall>p\<in>set (walk msg). names_attachment p \<longleftrightarrow> declared_attachment p) \<longrightarrow>
      get_body lib msg = body_by declared_attachment lib msg)"
proof -
  have agree: "get_body lib msg = body_by declared_attachment lib msg"
    if "\<forall>p\<in>set (walk msg). names_attachment p \<longleftrightarrow> declared_attachment p"
    using get_body_by_names[of lib msg] body_by_cong[OF that, of lib] by simp
  from get_body_by_names[of lib msg] agree show ?thesis by blast
qed

lemmas reading_defs = body_by_def part_text_def names_attachment_def declared_attachment_def
  disposition_text_def msg_files_def msg_attached_def msg_attached_html_def

theorem get_body_priority_witness:
  "get_body sample_lib msg_alt = Inr (str ''hi'') \<and>
   get_body sample_lib msg_attached = Inr (str ''second'') \<and>
   get_body sample_lib msg_attached_html = Inr (str ''<p>hi</p>'') \<and>
   get_body sample_lib msg_a = Inr (str ''hello'') \<and>
   get_body sample_lib
     (Multipart ((plain_headers None None)\<lparr>content_type := str ''multipart/mixed''\<rparr>) []) = Inr []"
proof -
  have agree: "\<forall>p\<in>set (walk m). names_attachment p \<longleftrightarrow> declared_attachment p"
    if "m = msg_alt \<or> m = msg_attached \<or> m = msg_attached_html \<or> m = msg_a \<or>
        m = Multipart ((plain_headers None None)\<lparr>content_type := str ''multipart/mixed''\<rparr>) []"
    for m
    using that by (auto simp: reading_defs sample_defs py_defs)
  have a: "body_by declared_attachment sample_lib msg_alt = Inr (str ''hi'')"
    by (simp add: reading_defs sample_defs py_defs)
  have b: "body_by declared_attachment sample_lib msg_attached = Inr (str ''second'')"
    by (simp add: reading_defs sample_defs py_defs)
  have c: "body_by declared_attachment sample_lib msg_attached_html = Inr (str ''<p>hi</p>'')"
    by (simp add: reading_defs sample_defs py_defs)
  have d: "body_by declared_attachment sample_lib msg_a = Inr (str ''hello'')"
    by (simp add: reading_defs sample_defs py_defs)
  have e: "body_by declared_attachment sample_lib
     (Multipart ((plain_headers None None)\<lparr>content_type := str ''multipart/mixed''\<rparr>) []) = Inr []"
    by (simp add: reading_defs sample_defs py_defs)
  from a b c d e agree
    get_body_priority[of sample_lib msg_alt] get_body_priority[of sample_lib msg_attached]
    get_body_priority[of sample_lib msg_attached_html] get_body_priority[of sample_lib msg_a]
    get_body_priority[of sample_lib
      "Multipart ((plain_headers None None)\<lparr>content_type := str ''multipart/mixed''\<rparr>) []"]
  show ?thesis by metis
qed

text \<open>
  The claim as stated fails where the two readings part: in \<open>msg_files\<close> the first
  \<open>text/plain\<close> part is inline and only its file name contains the word attachment, the
  second is declared \<open>ATTACHMENT\<close> in capitals. The claim's body is the text of the first
  part; \<open>get_body\<close> skips it and returns the text of the declared attachment.
\<close>

theorem get_body_attachment_counterexample:
  "get_body sample_lib msg_files = Inr (str ''file text'') \<and>
   body_by declared_attachment sample_lib msg_files = Inr (str ''inline text'') \<and>
   declared_attachment (walk msg_files ! 2) \<and> \<not> declared_attachment (walk msg_files ! 1)"
  by (simp add: reading_defs sample_defs py_defs model_defs)

section \<open>Fetching the unread set\<close>

lemma or_str_Some_empty: "or_str (Some b) [] = b"
  by (simp add: or_str_def)

lemma fetch_each_skip:
  assumes "imap_fetch srv tr eid = (res, data)"
    and "res \<noteq> str ''OK'' \<or> data = [] \<or> hd data = NoneItem \<or> parse_item lib (hd data) = None"
  shows "fetch_each lib srv tr (eid # eids) results = fetch_each lib srv (tr @ [Fetched eid]) eids results"
  using assms by (auto simp: Let_def)

lemma fetch_each_step:
  "(\<exists>ex. fetch_each lib srv tr (eid # eids) results = (Inl ex, tr @ [Fetched eid])) \<or>
   fetch_each lib srv tr (eid # eids) results = fetch_each lib srv (tr @ [Fetched eid]) eids results \<or>
   (\<exists>subject sender date body.
      fetch_each lib srv tr (eid # eids) results =
        fetch_each lib srv (tr @ [Fetched eid]) eids
          (results @ [\<lparr>e_id = eid, e_subject = subject, e_from = sender, e_date = date,
                       e_body = body, e_preview = preview_of body\<rparr>]))"
proof (cases "imap_fetch srv tr eid")
  case (Pair res data)
  show ?thesis
  proof (cases "res \<noteq> str ''OK'' \<or> data = [] \<or> hd data = NoneItem \<or> parse_item lib (hd data) = None")
    case True
    from fetch_each_skip[OF Pair True] show ?thesis by simp
  next
    case False
    then obtain msg where ok: "res = str ''OK''" "data \<noteq> []" "hd data \<noteq> NoneItem"
      and msg: "parse_item lib (hd data) = Some msg" by auto
    let ?s = "decode_mime lib (get_header (h_subject (hdrs msg)))"
    let ?f = "decode_mime lib (get_header (h_from (hdrs msg)))"
    let ?d = "decode_mime lib (get_header (h_date (hdrs msg)))"
    let ?b = "get_body lib msg"
    show ?thesis
    proof (cases "\<exists>subject sender date body. ?s = Inr subject \<and> ?f = Inr sender \<and> ?d = Inr date \<and> ?b = Inr body")
      case True
      then obtain subject sender date body
        where "?s = Inr subject" "?f = Inr sender" "?d = Inr date" "?b = Inr body" by blast
      with Pair ok msg have "fetch_each lib srv tr (eid # eids) results =
        fetch_each lib srv (tr @ [Fetched eid]) eids
          (results @ [\<lparr>e_id = eid, e_subject = subject, e_from = sender, e_date = date,
                       e_body = body, e_preview = preview_of body\<rparr>])"
        by (simp add: Let_def or_str_Some_empty)
      then show ?thesis by blast
    next
      case False
      with Pair ok msg have "\<exists>ex. fetch_each lib srv tr (eid # eids) results = (Inl ex, tr @ [Fetched eid])"
        by (auto simp: Let_def split: sum.splits)
      then show ?thesis by blast
    qed
  qed
qed

lemma dispatches_append: "dispatches (a @ b) = dispatches a @ dispatches b"
  by (simp add: dispatches_def)

lemma fetch_each_trace:
  "\<exists>more. snd (fetch_each lib srv tr eids results) = tr @ more \<and> dispatches more = []"
proof (induction eids arbitrary: tr results)
  case Nil
  then show ?case by (simp add: dispatches_def)
next
  case (Cons eid eids)
  have ext: "\<exists>more. snd (fetch_each lib srv (tr @ [Fetched eid]) eids rs) = tr @ more \<and> dispatches more = []"
    for rs
  proof -
    from Cons.IH[of "tr @ [Fetched eid]" rs]
    obtain more where m: "snd (fetch_each lib srv (tr @ [Fetched eid]) eids rs) = (tr @ [Fetched eid]) @ more"
      "dispatches more = []" by blast
    then have "snd (fetch_each lib srv (tr @ [Fetched eid]) eids rs) = tr @ (Fetched eid # more)
        \<and> dispatches (Fetched eid # more) = []"
      by (simp add: dispatches_def)
    then show ?thesis by blast
  qed
  have one: "dispatches [Fetched eid] = []" by (simp add: dispatches_def)
  from fetch_each_step[of lib srv tr eid eids results] show ?case
  proof (elim disjE exE)
    fix ex assume "fetch_each lib srv tr (eid # eids) results = (Inl ex, tr @ [Fetched eid])"
    with one show ?thesis by (metis snd_conv)
  next
    assume "fetch_each lib srv tr (eid # eids) results = fetch_each lib srv (tr @ [Fetched eid]) eids results"
    with ext show ?thesis by simp
  next
    fix subject sender date body
    assume "fetch_each lib srv tr (eid # eids) results =
        fetch_each lib srv (tr @ [Fetched eid]) eids
          (results @ [\<lparr>e_id = eid, e_subject = subject, e_from = sender, e_date = date,
                       e_body = body, e_preview = preview_of body\<rparr>])"
    with ext show ?thesis by simp
  qed
qed

lemma fetch_unseen_trace:
  "\<exists>more. snd (fetch_unseen lib srv tr) = tr @ [Selected, Searched] @ more \<and> dispatches more = []"
proof (cases "imap_search srv (tr @ [Selected])")
  case (Pair status messages0)
  show ?thesis
  proof (cases "status = str ''OK''")
    case False
    with Pair have "snd (fetch_unseen lib srv tr) = tr @ [Selected, Searched] @ []"
      by (simp add: fetch_unseen_def)
    then show ?thesis by (metis dispatches_def filter.simps(1))
  next
    case True
    from fetch_each_trace[of lib srv "tr @ [Selected, Searched]" "bytes_split messages0" "[]"]
    obtain more where "snd (fetch_each lib srv (tr @ [Selected, Searched]) (bytes_split messages0) [])
        = (tr @ [Selected, Searched]) @ more" "dispatches more = []" by blast
    with Pair True show ?thesis by (simp add: fetch_unseen_def)
  qed
qed

lemma fetch_each_previews:
  assumes "\<forall>e\<in>set results. e_preview e = preview_of (e_body e)"
    and "fetch_each lib srv tr eids results = (Inr emails, tr')"
  shows "\<forall>e\<in>set emails. e_preview e = preview_of (e_body e)"
  using assms
proof (induction eids arbitrary: tr results)
  case Nil
  then show ?case by simp
next
  case (Cons eid eids)
  from fetch_each_step[of lib srv tr eid eids results] show ?case
  proof (elim disjE exE)
    fix ex assume "fetch_each lib srv tr (eid # eids) results = (Inl ex, tr @ [Fetched eid])"
    with Cons.prems(2) show ?thesis by simp
  next
    assume "fetch_each lib srv tr (eid # eids) results = fetch_each lib srv (tr @ [Fetched eid]) eids results"
    with Cons.prems Cons.IH[of results "tr @ [Fetched eid]"] show ?thesis by simp
  next
    fix subject sender date body
    let ?r = "\<lparr>e_id = eid, e_subject = subject, e_from = sender, e_date = date,
                       e_body = body, e_preview = preview_of body\<rparr>"
    assume "fetch_each lib srv tr (eid # eids) results =
        fetch_each lib srv (tr @ [Fetched eid]) eids (results @ [?r])"
    with Cons.prems Cons.IH[of "results @ [?r]" "tr @ [Fetched eid]"] show ?thesis by simp
  qed
qed

lemma fetch_unseen_previews:
  assumes "fetch_unseen lib srv tr = (Inr emails, tr')"
  shows "\<forall>e\<in>set emails. e_preview e = preview_of (e_body e)"
proof (cases "imap_search srv (tr @ [Selected])")
  case (Pair status messages0)
  show ?thesis
  proof (cases "status = str ''OK''")
    case False
    with Pair assms show ?thesis by (simp add: fetch_unseen_def)
  next
    case True
    with Pair assms have "fetch_each lib srv (tr @ [Selected, Searched]) (bytes_split messages0) [] = (Inr emails, tr')"
      by (simp add: fetch_unseen_def)
    from fetch_each_previews[OF _ this] show ?thesis by simp
  qed
qed


lemma is_space_collapse: "is_space (if c = CR \<or> c = LF then SP else c) = is_space c"
  by (simp add: is_space_def CR_def LF_def SP_def)

lemma strip_map:
  assumes "\<And>c. is_space (f c) = is_space c"
  shows "strip (map f s) = map f (strip s)"
proof -
  have comp: "is_space \<circ> f = is_space"
    using assms by (simp add: fun_eq_iff)
  have "dropWhile is_space (map f s) = map f (dropWhile is_space s)"
    by (simp add: dropWhile_map comp)
  moreover have "dropWhile is_space (map f (rev (dropWhile is_space s)))
      = map f (dropWhile is_space (rev (dropWhile is_space s)))"
    by (simp add: dropWhile_map comp)
  ultimately show ?thesis
    by (simp add: strip_def rev_map)
qed

lemma replace_twice: "replace LF SP (replace CR SP s) = collapse s"
  by (simp add: replace_def collapse_def CR_def LF_def SP_def)

lemma preview_refines: "preview_of body = preview_spec body"
  by (simp add: preview_of_def preview_spec_def slice_to_def replace_twice collapse_def
      strip_map[OF is_space_collapse])

lemma collapse_free: "CR \<notin> set (collapse s) \<and> LF \<notin> set (collapse s)"
  by (auto simp: collapse_def CR_def LF_def SP_def)

lemma preview_bounds:
  "length (preview_of body) \<le> 400 \<and> CR \<notin> set (preview_of body) \<and> LF \<notin> set (preview_of body)"
  using collapse_free[of "strip body"]
  by (auto simp: preview_of_def slice_to_def replace_twice dest: in_set_takeD)

text \<open>
  C5. The preview computed from a body (strip, then replace each carriage return and each
  newline by one space, then keep the first 400 characters) equals the spec's reading
  (replace, then trim, then truncate); it has at most 400 characters and contains neither
  a carriage return nor a newline. Every record \<open>fetch_unseen\<close> returns carries the preview
  of its own body, so it has these properties.
\<close>

theorem preview_normalised:
  "preview_of body = preview_spec body \<and>
   length (preview_of body) \<le> 400 \<and>
   CR \<notin> set (preview_of body) \<and> LF \<notin> set (preview_of body) \<and>
   (fetch_unseen lib srv tr = (Inr emails, tr') \<longrightarrow>
      (\<forall>e\<in>set emails. e_preview e = preview_of (e_body e) \<and> length (e_preview e) \<le> 400 \<and>
         CR \<notin> set (e_preview e) \<and> LF \<notin> set (e_preview e)))"
proof -
  have records: "\<forall>e\<in>set emails. e_preview e = preview_of (e_body e) \<and> length (e_preview e) \<le> 400 \<and>
         CR \<notin> set (e_preview e) \<and> LF \<notin> set (e_preview e)"
    if "fetch_unseen lib srv tr = (Inr emails, tr')"
  proof
    fix e assume "e \<in> set emails"
    with fetch_unseen_previews[OF that] have "e_preview e = preview_of (e_body e)" by blast
    with preview_bounds[of "e_body e"] show "e_preview e = preview_of (e_body e) \<and>
        length (e_preview e) \<le> 400 \<and> CR \<notin> set (e_preview e) \<and> LF \<notin> set (e_preview e)"
      by simp
  qed
  with preview_refines[of body] preview_bounds[of body] show ?thesis by blast
qed

theorem preview_normalised_witness:
  "fetch_unseen sample_lib (quiet_inbox (bytes ''2'')) [] =
     (Inr [\<lparr>e_id = bytes ''2'', e_subject = str ''B'', e_from = [], e_date = [],
            e_body = str ''  big'' @ [CR, LF] @ str ''world '', e_preview = str ''big  world''\<rparr>],
      [Selected, Searched, Fetched (bytes ''2'')]) \<and>
   preview_spec (str ''  big'' @ [CR, LF] @ str ''world '') = str ''big  world'' \<and>
   length (str ''big  world'') \<le> 400 \<and> CR \<notin> set (str ''big  world'') \<and> LF \<notin> set (str ''big  world'')"
proof -
  let ?emails = "[\<lparr>e_id = bytes ''2'', e_subject = str ''B'', e_from = [], e_date = [],
            e_body = str ''  big'' @ [CR, LF] @ str ''world '', e_preview = str ''big  world''\<rparr>]"
  have f: "fetch_unseen sample_lib (quiet_inbox (bytes ''2'')) [] =
      (Inr ?emails, [Selected, Searched, Fetched (bytes ''2'')])"
    by (simp add: quiet_inbox_def sample_defs py_defs model_defs)
  have p: "preview_of (str ''  big'' @ [CR, LF] @ str ''world '') = str ''big  world''"
    by (simp add: py_defs model_defs)
  note t = preview_normalised[of "str ''  big'' @ [CR, LF] @ str ''world ''" sample_lib
      "quiet_inbox (bytes ''2'')" "[]" ?emails "[Selected, Searched, Fetched (bytes ''2'')]"]
  from t have a: "preview_of (str ''  big'' @ [CR, LF] @ str ''world '')
      = preview_spec (str ''  big'' @ [CR, LF] @ str ''world '')" by blast
  have c1: "preview_spec (str ''  big'' @ [CR, LF] @ str ''world '') = str ''big  world''"
    by (rule trans[OF a[symmetric] p])
  from t f have b: "\<forall>e\<in>set ?emails. e_preview e = preview_of (e_body e) \<and> length (e_preview e) \<le> 400 \<and>
         CR \<notin> set (e_preview e) \<and> LF \<notin> set (e_preview e)" by blast
  have "hd ?emails \<in> set ?emails" by simp
  with b have "length (e_preview (hd ?emails)) \<le> 400 \<and> CR \<notin> set (e_preview (hd ?emails))
      \<and> LF \<notin> set (e_preview (hd ?emails))" by blast
  then have c2: "length (str ''big  world'') \<le> 400 \<and> CR \<notin> set (str ''big  world'')
      \<and> LF \<notin> set (str ''big  world'')" by simp
  from f c1 c2 show ?thesis by blast
qed

lemma fetch_each_ids:
  assumes "fetch_each lib srv tr eids results = (Inr emails, tr')"
  shows "set (map e_id emails) \<subseteq> set (map e_id results) \<union> set eids"
  using assms
proof (induction eids arbitrary: tr results)
  case Nil
  then show ?case by simp
next
  case (Cons eid eids)
  from fetch_each_step[of lib srv tr eid eids results] show ?case
  proof (elim disjE exE)
    fix ex assume "fetch_each lib srv tr (eid # eids) results = (Inl ex, tr @ [Fetched eid])"
    with Cons.prems show ?thesis by simp
  next
    assume "fetch_each lib srv tr (eid # eids) results = fetch_each lib srv (tr @ [Fetched eid]) eids results"
    with Cons.prems Cons.IH[of "tr @ [Fetched eid]" results] show ?thesis by auto
  next
    fix subject sender date body
    let ?r = "\<lparr>e_id = eid, e_subject = subject, e_from = sender, e_date = date,
                       e_body = body, e_preview = preview_of body\<rparr>"
    assume "fetch_each lib srv tr (eid # eids) results =
        fetch_each lib srv (tr @ [Fetched eid]) eids (results @ [?r])"
    with Cons.prems Cons.IH[of "tr @ [Fetched eid]" "results @ [?r]"] show ?thesis by auto
  qed
qed

text \<open>
  C10. When the IMAP search does not answer \<open>OK\<close>, \<open>fetch_unseen\<close> returns the empty
  list, exactly what it returns (result and calls made) for a search that answers \<open>OK\<close>
  with no ids, so the caller cannot tell the two apart. A message whose \<open>fetch\<close> does not
  answer \<open>OK\<close>, or answers no data, or \<open>None\<close> as first item, is skipped: the loop goes on
  with the results it had, and the id is not among the records returned.
\<close>

theorem fetch_unseen_failure_is_empty:
  "(fst (imap_search srv (tr @ [Selected])) \<noteq> str ''OK'' \<longrightarrow>
      fetch_unseen lib srv tr = (Inr [], tr @ [Selected, Searched])) \<and>
   (imap_search srv' (tr @ [Selected]) = (str ''OK'', []) \<longrightarrow>
      fetch_unseen lib srv' tr = (Inr [], tr @ [Selected, Searched])) \<and>
   (imap_fetch srv tr eid = (res, data) \<and> (res \<noteq> str ''OK'' \<or> data = [] \<or> hd data = NoneItem) \<longrightarrow>
      fetch_each lib srv tr (eid # eids) results =
        fetch_each lib srv (tr @ [Fetched eid]) eids results \<and>
      (\<forall>emails tr'. fetch_each lib srv tr (eid # eids) results = (Inr emails, tr') \<longrightarrow>
         eid \<notin> set eids \<longrightarrow> eid \<notin> set (map e_id results) \<longrightarrow> eid \<notin> set (map e_id emails)))"
proof -
  have search_failed: "fetch_unseen lib srv tr = (Inr [], tr @ [Selected, Searched])"
    if "fst (imap_search srv (tr @ [Selected])) \<noteq> str ''OK''"
    using that by (auto simp: fetch_unseen_def Let_def split: prod.splits)
  have search_empty: "fetch_unseen lib srv' tr = (Inr [], tr @ [Selected, Searched])"
    if "imap_search srv' (tr @ [Selected]) = (str ''OK'', [])"
    using that by (simp add: fetch_unseen_def bytes_split_def)
  have skip: "fetch_each lib srv tr (eid # eids) results =
      fetch_each lib srv (tr @ [Fetched eid]) eids results"
    if "imap_fetch srv tr eid = (res, data) \<and> (res \<noteq> str ''OK'' \<or> data = [] \<or> hd data = NoneItem)"
    using that fetch_each_skip[of srv tr eid res data lib eids results] by blast
  have absent: "eid \<notin> set (map e_id emails)"
    if a: "imap_fetch srv tr eid = (res, data) \<and> (res \<noteq> str ''OK'' \<or> data = [] \<or> hd data = NoneItem)"
      and r: "fetch_each lib srv tr (eid # eids) results = (Inr emails, tr')"
      and n: "eid \<notin> set eids" "eid \<notin> set (map e_id results)"
    for emails tr'
  proof -
    from skip[OF a] r have "fetch_each lib srv (tr @ [Fetched eid]) eids results = (Inr emails, tr')"
      by simp
    from fetch_each_ids[OF this] n show ?thesis by blast
  qed
  from search_failed search_empty skip absent show ?thesis by blast
qed

theorem fetch_unseen_failure_is_empty_witness:
  "fetch_unseen sample_lib (scripted (\<lambda>k. (str ''NO'', bytes ''1'')) (\<lambda>k. Returned PyNone)) []
     = (Inr [], [Selected, Searched]) \<and>
   fetch_unseen sample_lib (quiet_inbox []) [] = (Inr [], [Selected, Searched]) \<and>
   fetch_each sample_lib (quiet_inbox (bytes ''9 1'')) [] [bytes ''9'', bytes ''1''] []
     = fetch_each sample_lib (quiet_inbox (bytes ''9 1'')) [Fetched (bytes ''9'')] [bytes ''1''] [] \<and>
   map e_id (projr (fst (fetch_unseen sample_lib (quiet_inbox (bytes ''9 1'')) []))) = [bytes ''1'']"
proof -
  let ?no = "scripted (\<lambda>k. (str ''NO'', bytes ''1'')) (\<lambda>k. Returned PyNone)"
  have h1: "fst (imap_search ?no ([] @ [Selected])) \<noteq> str ''OK''"
    by (simp add: sample_defs py_defs)
  have h2: "imap_search (quiet_inbox []) ([] @ [Selected]) = (str ''OK'', [])"
    by (simp add: quiet_inbox_def sample_defs py_defs)
  have h3: "imap_fetch (quiet_inbox (bytes ''9 1'')) [] (bytes ''9'') = (str ''OK'', [NoneItem])"
    by (simp add: quiet_inbox_def sample_defs py_defs)
  have h4: "map e_id (projr (fst (fetch_unseen sample_lib (quiet_inbox (bytes ''9 1'')) []))) = [bytes ''1'']"
    by (simp add: quiet_inbox_def sample_defs py_defs model_defs)
  from h1 h2 h3 h4
    fetch_unseen_failure_is_empty[where srv = ?no and tr = "[]" and lib = sample_lib
      and srv' = "quiet_inbox []"]
    fetch_unseen_failure_is_empty[where srv = "quiet_inbox (bytes ''9 1'')" and tr = "[]"
      and lib = sample_lib and eid = "bytes ''9''" and res = "str ''OK''" and data = "[NoneItem]"
      and eids = "[bytes ''1'']" and results = "[]"]
  show ?thesis by simp
qed


section \<open>Dispatching\<close>

lemma outcomes_append: "outcomes (a @ b) = outcomes a @ outcomes b"
  by (induction a rule: outcomes.induct) simp_all

lemma sent_texts_append: "sent_texts (a @ b) = sent_texts a @ sent_texts b"
  by (induction a rule: sent_texts.induct) simp_all

lemma stored_ids_append: "stored_ids (a @ b) = stored_ids a @ stored_ids b"
  by (induction a rule: stored_ids.induct) simp_all

lemma is_delivered_iff:
  "is_delivered oc \<longleftrightarrow> (\<exists>s. create_result oc = Inr (PyStr s) \<and> \<not> startswith s (str ''ERROR''))"
  by (auto simp: is_delivered_def delivered_def split: sum.splits pyval.splits)

lemma error_string_prefix:
  "startswith (str ''ERROR: '' @ rest) (str ''ERROR: '') \<and> startswith (str ''ERROR: '' @ rest) (str ''ERROR'')"
  by (simp add: startswith_def str_def)

lemma rest_exception_not_delivered: "\<not> is_delivered (RestException m c)"
  using error_string_prefix by (simp add: is_delivered_def delivered_def create_result_def)

lemma send_each_step:
  assumes "\<And>ex. messages_create srv tr (payload_text e) \<noteq> OtherException ex"
  shows "send_each srv tr (e # es)
      = send_each srv (tr @ record_calls e (messages_create srv tr (payload_text e))) es"
proof (cases "messages_create srv tr (payload_text e)")
  case (Returned sid)
  then show ?thesis
    by (simp add: Let_def send_whatsapp_def create_result_def record_calls_def is_delivered_def
        split: option.splits)
next
  case (RestException m c)
  with rest_exception_not_delivered[of m c] show ?thesis
    by (simp add: Let_def send_whatsapp_def record_calls_def is_delivered_def create_result_def)
next
  case (OtherException ex)
  with assms[of ex] show ?thesis by blast
qed

lemma send_each_raises:
  assumes "messages_create srv tr (payload_text e) = OtherException ex"
  shows "send_each srv tr (e # es) = (Some (OtherError ex), tr @ [Created (payload_text e) (OtherException ex)])"
  using assms by (simp add: Let_def send_whatsapp_def create_result_def)

lemma ending_Cons: "\<not> raised oc \<Longrightarrow> ending (oc # ocs) = ending ocs"
  by (cases oc) (auto simp: ending_def raised_def)

lemma raised_not_delivered: "raised oc \<Longrightarrow> \<not> is_delivered oc"
  by (auto simp: raised_def is_delivered_def create_result_def)

lemma calls_texts_prefix:
  "length ocs \<le> length es \<Longrightarrow>
   sent_texts (concat (map2 record_calls es ocs)) = map payload_text (take (length ocs) es)"
proof (induction es arbitrary: ocs)
  case Nil
  then show ?case by simp
next
  case (Cons e es)
  then show ?case
    by (cases ocs) (simp_all add: record_calls_def sent_texts_append)
qed

lemma calls_stored_prefix:
  "stored_ids (concat (map2 record_calls es ocs))
     = map (e_id \<circ> fst) (filter (is_delivered \<circ> snd) (zip es ocs))"
proof (induction es arbitrary: ocs)
  case Nil
  then show ?case by simp
next
  case (Cons e es)
  then show ?case
    by (cases ocs) (simp_all add: record_calls_def stored_ids_append)
qed

lemma is_delivered_kinds:
  "is_delivered oc \<longleftrightarrow> (\<exists>s. oc = Returned (PyStr s) \<and> \<not> startswith s (str ''ERROR''))"
proof (cases oc)
  case (Returned sid)
  then show ?thesis
    by (cases sid) (simp_all add: is_delivered_def create_result_def delivered_def)
next
  case (RestException m c)
  with rest_exception_not_delivered[of m c] show ?thesis by simp
next
  case (OtherException ex)
  then show ?thesis by (simp add: is_delivered_def create_result_def)
qed

lemma send_each_general:
  "\<exists>ocs. length ocs \<le> length emails \<and>
         send_each srv tr emails = (ending ocs, tr @ concat (map2 record_calls emails ocs)) \<and>
         (\<forall>k<length ocs.
            ocs ! k = messages_create srv
                        (tr @ concat (map2 record_calls (take k emails) (take k ocs)))
                        (payload_text (emails ! k))) \<and>
         (\<forall>k. Suc k < length ocs \<longrightarrow> \<not> raised (ocs ! k)) \<and>
         (length ocs < length emails \<longrightarrow> ocs \<noteq> [] \<and> raised (last ocs))"
proof (induction emails arbitrary: tr)
  case Nil
  show ?case by (rule exI[of _ "[]"]) (simp add: ending_def)
next
  case (Cons e es)
  let ?oc = "messages_create srv tr (payload_text e)"
  show ?case
  proof (cases "raised ?oc")
    case True
    then obtain ex where oc: "?oc = OtherException ex" by (auto simp: raised_def)
    have run: "send_each srv tr (e # es)
        = (ending [?oc], tr @ concat (map2 record_calls (e # es) [?oc]))"
      using send_each_raises[OF oc, of es] raised_not_delivered[OF True] oc
      by (simp add: ending_def record_calls_def)
    show ?thesis
      by (rule exI[of _ "[?oc]"]) (use run True in simp)
  next
    case False
    then have step: "send_each srv tr (e # es) = send_each srv (tr @ record_calls e ?oc) es"
      by (intro send_each_step) (auto simp: raised_def)
    from Cons.IH[of "tr @ record_calls e ?oc"]
    obtain ocs where len: "length ocs \<le> length es"
      and run: "send_each srv (tr @ record_calls e ?oc) es
          = (ending ocs, (tr @ record_calls e ?oc) @ concat (map2 record_calls es ocs))"
      and asked: "\<forall>k<length ocs.
            ocs ! k = messages_create srv
                        ((tr @ record_calls e ?oc) @ concat (map2 record_calls (take k es) (take k ocs)))
                        (payload_text (es ! k))"
      and early: "\<forall>k. Suc k < length ocs \<longrightarrow> \<not> raised (ocs ! k)"
      and short: "length ocs < length es \<longrightarrow> ocs \<noteq> [] \<and> raised (last ocs)"
      by blast
    have l: "length (?oc # ocs) \<le> length (e # es)" using len by simp
    have r: "send_each srv tr (e # es)
        = (ending (?oc # ocs), tr @ concat (map2 record_calls (e # es) (?oc # ocs)))"
      using step run ending_Cons[OF False, of ocs] by simp
    have a: "\<forall>k<length (?oc # ocs).
            (?oc # ocs) ! k = messages_create srv
                        (tr @ concat (map2 record_calls (take k (e # es)) (take k (?oc # ocs))))
                        (payload_text ((e # es) ! k))"
    proof (intro allI impI)
      fix k assume k: "k < length (?oc # ocs)"
      show "(?oc # ocs) ! k = messages_create srv
                        (tr @ concat (map2 record_calls (take k (e # es)) (take k (?oc # ocs))))
                        (payload_text ((e # es) ! k))"
      proof (cases k)
        case 0
        then show ?thesis by simp
      next
        case (Suc j)
        with k asked show ?thesis by simp
      qed
    qed
    have b: "\<forall>k. Suc k < length (?oc # ocs) \<longrightarrow> \<not> raised ((?oc # ocs) ! k)"
    proof (intro allI impI)
      fix k assume k: "Suc k < length (?oc # ocs)"
      show "\<not> raised ((?oc # ocs) ! k)"
      proof (cases k)
        case 0
        with False show ?thesis by simp
      next
        case (Suc j)
        with k early show ?thesis by simp
      qed
    qed
    have c: "length (?oc # ocs) < length (e # es) \<longrightarrow> ?oc # ocs \<noteq> [] \<and> raised (last (?oc # ocs))"
      using short by auto
    show ?thesis
      by (rule exI[of _ "?oc # ocs"]) (intro conjI l r a b c)
  qed
qed

text \<open>
  C1, as amended. One pass of \<open>send_batch\<close> over a selected list handles the records in the
  order of the list, one send each: \<open>ocs\<close> lists how the sends ended, and the calls made
  are, record by record, one send of that record's text followed by one seen-flag update
  for that record's id exactly when the send was delivered, and nothing more for a failed
  send. A send counts as delivered when \<open>create\<close> returned a sid that is a string not
  starting with \<open>ERROR\<close>; a rejection by the gateway never does. Each send is asked after the
  calls of all earlier records, whatever their outcome. The pass stops before the end of the
  list only at a send that raised an exception other than the gateway's rejection: then that
  exception leaves \<open>send_batch\<close> and the later records are neither sent nor acknowledged.
  When no send raises, every record is handled and the pass ends normally.
\<close>

theorem send_batch_in_order:
  "\<exists>ocs. length ocs \<le> length emails \<and>
         send_batch srv tr emails = (ending ocs, tr @ concat (map2 record_calls emails ocs)) \<and>
         (\<forall>k<length ocs.
            ocs ! k = messages_create srv
                        (tr @ concat (map2 record_calls (take k emails) (take k ocs)))
                        (payload_text (emails ! k))) \<and>
         (\<forall>k. Suc k < length ocs \<longrightarrow> \<not> raised (ocs ! k)) \<and>
         (length ocs < length emails \<longrightarrow> ocs \<noteq> [] \<and> raised (last ocs)) \<and>
         sent_texts (concat (map2 record_calls emails ocs)) = map payload_text (take (length ocs) emails) \<and>
         stored_ids (concat (map2 record_calls emails ocs))
           = map (e_id \<circ> fst) (filter (is_delivered \<circ> snd) (zip emails ocs)) \<and>
         (\<forall>oc\<in>set ocs.
            is_delivered oc \<longleftrightarrow> (\<exists>s. oc = Returned (PyStr s) \<and> \<not> startswith s (str ''ERROR'')))"
proof -
  from send_each_general[of emails srv tr]
  obtain ocs where len: "length ocs \<le> length emails"
    and run: "send_each srv tr emails = (ending ocs, tr @ concat (map2 record_calls emails ocs))"
    and asked: "\<forall>k<length ocs.
            ocs ! k = messages_create srv
                        (tr @ concat (map2 record_calls (take k emails) (take k ocs)))
                        (payload_text (emails ! k))"
    and early: "\<forall>k. Suc k < length ocs \<longrightarrow> \<not> raised (ocs ! k)"
    and short: "length ocs < length emails \<longrightarrow> ocs \<noteq> [] \<and> raised (last ocs)"
    by blast
  have batch: "send_batch srv tr emails = (ending ocs, tr @ concat (map2 record_calls emails ocs))"
  proof (cases "emails = []")
    case True
    with len show ?thesis by (simp add: send_batch_def ending_def)
  next
    case False
    with run show ?thesis by (simp add: send_batch_def)
  qed
  have texts: "sent_texts (concat (map2 record_calls emails ocs))
      = map payload_text (take (length ocs) emails)"
    using len by (rule calls_texts_prefix)
  have stored: "stored_ids (concat (map2 record_calls emails ocs))
           = map (e_id \<circ> fst) (filter (is_delivered \<circ> snd) (zip emails ocs))"
    by (rule calls_stored_prefix)
  have kinds: "\<forall>oc\<in>set ocs.
      is_delivered oc \<longleftrightarrow> (\<exists>s. oc = Returned (PyStr s) \<and> \<not> startswith s (str ''ERROR''))"
    using is_delivered_kinds by blast
  show ?thesis
    by (rule exI[of _ ocs]) (intro conjI len batch asked early short texts stored kinds)
qed

theorem send_batch_in_order_witness:
  "send_batch (scripted (\<lambda>k. (str ''OK'', [])) (\<lambda>k. if k = 0 then rejected else Returned (PyStr (str ''SM2''))))
     [] [email_a, email_b]
   = (None, [Created (payload_text email_a) rejected,
             Created (payload_text email_b) (Returned (PyStr (str ''SM2''))),
             Stored (bytes ''2'')])"
proof -
  let ?srv = "scripted (\<lambda>k. (str ''OK'', [])) (\<lambda>k. if k = 0 then rejected else Returned (PyStr (str ''SM2'')))"
  have h: "\<not> raised (messages_create ?srv tr t)" for tr t
    by (simp add: scripted_def rejected_def raised_def)
  from send_batch_in_order[of "[email_a, email_b]" ?srv "[]"]
  obtain ocs where len: "length ocs \<le> length [email_a, email_b]"
    and run: "send_batch ?srv [] [email_a, email_b]
        = (ending ocs, [] @ concat (map2 record_calls [email_a, email_b] ocs))"
    and asked: "\<forall>k<length ocs.
              ocs ! k = messages_create ?srv
                          ([] @ concat (map2 record_calls (take k [email_a, email_b]) (take k ocs)))
                          (payload_text ([email_a, email_b] ! k))"
    and short: "length ocs < length [email_a, email_b] \<longrightarrow> ocs \<noteq> [] \<and> raised (last ocs)"
    by blast
  have none: "\<not> raised (ocs ! k)" if "k < length ocs" for k
    using asked that h by metis
  have full: "length ocs = 2"
  proof (rule ccontr)
    assume "length ocs \<noteq> 2"
    with len short have ne: "ocs \<noteq> []" and r: "raised (last ocs)" by auto
    from ne have "last ocs = ocs ! (length ocs - 1)" by (rule last_conv_nth)
    with r none[of "length ocs - 1"] ne show False by simp
  qed
  then obtain o1 o2 where ocs: "ocs = [o1, o2]"
    by (metis (no_types, opaque_lifting) One_nat_def Suc_1 length_0_conv length_Suc_conv)
  from asked[rule_format, of 0] ocs have o1: "o1 = rejected"
    by (simp add: scripted_def)
  from asked[rule_format, of 1] ocs o1 have o2: "o2 = Returned (PyStr (str ''SM2''))"
    by (simp add: scripted_def record_calls_def)
  have d1: "\<not> is_delivered rejected"
    by (simp add: rejected_def rest_exception_not_delivered)
  have d2: "is_delivered (Returned (PyStr (str ''SM2'')))"
    by (simp add: is_delivered_def create_result_def delivered_def startswith_def str_def)
  from run ocs o1 o2 d1 d2 show ?thesis
    by (simp add: record_calls_def email_b_def ending_def)
qed

text \<open>
  The claim as stated, that a failure on one record never prevents later records from being
  sent, fails when the first send raises an HTTP client exception: the pass ends there and
  the second record, which the gateway would have delivered, is never sent.
\<close>

theorem send_batch_aborts_counterexample:
  "send_batch flaky [] [email_a, email_b]
     = (Some (OtherError (str ''ConnectionError'')),
        [Created (payload_text email_a) (OtherException (str ''ConnectionError''))]) \<and>
   payload_text email_b \<notin> set (sent_texts (snd (send_batch flaky [] [email_a, email_b]))) \<and>
   messages_create flaky [Created (payload_text email_a) (OtherException (str ''ConnectionError''))]
     (payload_text email_b) = Returned (PyStr (str ''SM2''))"
  by (simp add: flaky_def scripted_def send_batch_def send_whatsapp_def create_result_def Let_def
      payload_text_def email_a_def email_b_def str_def)

lemma contains_inside: "contains m (a @ m @ b)"
  by (simp add: contains_sublist)

text \<open>
  C9. In the dispatch loop a record gets its seen-flag update if and only if the result of
  \<open>send_whatsapp\<close> is a string that does not start with \<open>ERROR\<close>. A rejection by the
  gateway is turned into a string that starts with \<open>ERROR: \<close>, a returned identifier is
  passed on as it is, so the two are told apart by the prefix only: a returned identifier
  that itself starts with \<open>ERROR\<close> counts as a failure and its record stays unseen.
\<close>

theorem seen_iff_not_error_prefix:
  "(is_delivered oc \<longleftrightarrow> (\<exists>s. create_result oc = Inr (PyStr s) \<and> \<not> startswith s (str ''ERROR''))) \<and>
   ((\<forall>ex. messages_create srv tr (payload_text e) \<noteq> OtherException ex) \<longrightarrow>
      send_each srv tr (e # es) =
        send_each srv
          (tr @ Created (payload_text e) (messages_create srv tr (payload_text e))
              # (if \<exists>s. send_whatsapp srv tr (payload_text e) = Inr (PyStr s)
                        \<and> \<not> startswith s (str ''ERROR'')
                 then [Stored (e_id e)] else []))
          es) \<and>
   (\<exists>s. create_result (RestException m c) = Inr (PyStr s) \<and> startswith s (str ''ERROR: '')
        \<and> startswith s (str ''ERROR'')) \<and>
   create_result (Returned sid) = Inr sid \<and>
   (startswith s (str ''ERROR'') \<longrightarrow> \<not> is_delivered (Returned (PyStr s)))"
proof -
  have step: "send_each srv tr (e # es) =
        send_each srv
          (tr @ Created (payload_text e) (messages_create srv tr (payload_text e))
              # (if \<exists>s. send_whatsapp srv tr (payload_text e) = Inr (PyStr s)
                        \<and> \<not> startswith s (str ''ERROR'')
                 then [Stored (e_id e)] else []))
          es"
    if "\<forall>ex. messages_create srv tr (payload_text e) \<noteq> OtherException ex"
  proof -
    from that have "send_each srv tr (e # es)
      = send_each srv (tr @ record_calls e (messages_create srv tr (payload_text e))) es"
      by (intro send_each_step) blast
    then show ?thesis
      by (simp add: record_calls_def is_delivered_iff send_whatsapp_def)
  qed
  have enc: "\<exists>s. create_result (RestException m c) = Inr (PyStr s) \<and> startswith s (str ''ERROR: '')
        \<and> startswith s (str ''ERROR'')"
    using error_string_prefix by (simp add: create_result_def)
  have ret: "create_result (Returned sid) = Inr sid"
    by (simp add: create_result_def)
  have genuine: "\<not> is_delivered (Returned (PyStr s))" if "startswith s (str ''ERROR'')"
    using that by (simp add: is_delivered_def create_result_def delivered_def)
  from is_delivered_iff[of oc] step enc ret genuine show ?thesis by blast
qed

theorem seen_iff_not_error_prefix_witness:
  "send_each (scripted (\<lambda>k. (str ''OK'', [])) (\<lambda>k. Returned (PyStr (str ''ERROR42'')))) [] [email_a]
     = (None, [Created (payload_text email_a) (Returned (PyStr (str ''ERROR42'')))]) \<and>
   send_each (quiet_inbox []) [] [email_a]
     = (None, [Created (payload_text email_a) (Returned (PyStr (str ''SM1''))), Stored (bytes ''1'')]) \<and>
   \<not> is_delivered (Returned (PyStr (str ''ERROR42''))) \<and>
   create_result rejected = Inr (PyStr (str ''ERROR: Invalid To number (code 21211)''))"
proof -
  let ?odd = "scripted (\<lambda>k. (str ''OK'', [])) (\<lambda>k. Returned (PyStr (str ''ERROR42'')))"
  have h1: "\<forall>ex. messages_create ?odd [] (payload_text email_a) \<noteq> OtherException ex"
    by (simp add: scripted_def)
  have h2: "\<forall>ex. messages_create (quiet_inbox []) [] (payload_text email_a) \<noteq> OtherException ex"
    by (simp add: scripted_def quiet_inbox_def)
  have h3: "startswith (str ''ERROR42'') (str ''ERROR'')"
    by (simp add: startswith_def str_def)
  have r: "create_result rejected = Inr (PyStr (str ''ERROR: Invalid To number (code 21211)''))"
    by (simp add: create_result_def rejected_def format_code_def str_int_def str_def)
  note t1 = seen_iff_not_error_prefix[where srv = ?odd and tr = "[]" and e = email_a and es = "[]"
      and s = "str ''ERROR42''"]
  note t2 = seen_iff_not_error_prefix[where srv = "quiet_inbox []" and tr = "[]" and e = email_a
      and es = "[]"]
  from t1 h1 h3 have a: "send_each ?odd [] [email_a]
     = (None, [Created (payload_text email_a) (Returned (PyStr (str ''ERROR42'')))])"
    by (simp add: scripted_def send_whatsapp_def create_result_def startswith_def str_def)
  from t2 h2 have b: "send_each (quiet_inbox []) [] [email_a]
     = (None, [Created (payload_text email_a) (Returned (PyStr (str ''SM1''))), Stored (bytes ''1'')])"
    by (simp add: scripted_def quiet_inbox_def send_whatsapp_def create_result_def startswith_def
        str_def email_a_def)
  from t1 h3 have c: "\<not> is_delivered (Returned (PyStr (str ''ERROR42'')))" by blast
  from a b c r show ?thesis by blast
qed

text \<open>
  C4, as amended. \<open>send_whatsapp\<close> raises to its caller exactly when \<open>messages.create\<close>
  raises an exception that is not a \<open>TwilioRestException\<close>. When the gateway rejects the
  message (\<open>TwilioRestException\<close>) it returns a string that starts with \<open>ERROR: \<close> and
  contains the exception's message and code, which the dispatch loop takes for a failure;
  when \<open>create\<close> returns, it returns the message's sid.
\<close>

theorem send_whatsapp_outcomes:
  "((\<exists>ex. send_whatsapp srv tr body = Inl ex) \<longleftrightarrow> (\<exists>x. messages_create srv tr body = OtherException x)) \<and>
   (messages_create srv tr body = RestException m c \<longrightarrow>
      (\<exists>s. send_whatsapp srv tr body = Inr (PyStr s) \<and> startswith s (str ''ERROR: '') \<and>
           contains m s \<and> contains (format_code c) s \<and> \<not> delivered (PyStr s))) \<and>
   (messages_create srv tr body = Returned sid \<longrightarrow> send_whatsapp srv tr body = Inr sid)"
proof -
  have raises: "(\<exists>ex. send_whatsapp srv tr body = Inl ex) \<longleftrightarrow> (\<exists>x. messages_create srv tr body = OtherException x)"
    by (cases "messages_create srv tr body") (simp_all add: send_whatsapp_def create_result_def)
  have rejected: "\<exists>s. send_whatsapp srv tr body = Inr (PyStr s) \<and> startswith s (str ''ERROR: '') \<and>
           contains m s \<and> contains (format_code c) s \<and> \<not> delivered (PyStr s)"
    if r: "messages_create srv tr body = RestException m c"
  proof -
    let ?s = "str ''ERROR: '' @ m @ str '' (code '' @ format_code c @ str '')''"
    have "send_whatsapp srv tr body = Inr (PyStr ?s)"
      using r by (simp add: send_whatsapp_def create_result_def)
    moreover have "startswith ?s (str ''ERROR: '')" "startswith ?s (str ''ERROR'')"
      using error_string_prefix[of "m @ str '' (code '' @ format_code c @ str '')''"] by simp_all
    moreover have "contains m ?s"
      by (rule contains_inside)
    moreover have "contains (format_code c) ?s"
      using contains_inside[of "format_code c" "str ''ERROR: '' @ m @ str '' (code ''" "str '')''"]
      by simp
    ultimately show ?thesis by (simp add: delivered_def)
  qed
  have returned: "send_whatsapp srv tr body = Inr sid" if "messages_create srv tr body = Returned sid"
    using that by (simp add: send_whatsapp_def create_result_def)
  from raises rejected returned show ?thesis by blast
qed

theorem send_whatsapp_outcomes_witness:
  "send_whatsapp (scripted (\<lambda>k. (str ''OK'', [])) (\<lambda>k. rejected)) [] (str ''hi'')
     = Inr (PyStr (str ''ERROR: Invalid To number (code 21211)'')) \<and>
   send_whatsapp (quiet_inbox []) [] (str ''hi'') = Inr (PyStr (str ''SM1'')) \<and>
   (\<exists>ex. send_whatsapp offline [] (str ''hi'') = Inl ex)"
proof -
  let ?rej = "scripted (\<lambda>k. (str ''OK'', [])) (\<lambda>k. rejected)"
  have h1: "messages_create ?rej [] (str ''hi'') = RestException (str ''Invalid To number'') (Code 21211)"
    by (simp add: scripted_def rejected_def)
  have h2: "messages_create (quiet_inbox []) [] (str ''hi'') = Returned (PyStr (str ''SM1''))"
    by (simp add: scripted_def quiet_inbox_def)
  have h3: "\<exists>x. messages_create offline [] (str ''hi'') = OtherException x"
    by (simp add: scripted_def offline_def)
  from h1 send_whatsapp_outcomes[where srv = ?rej and tr = "[]" and body = "str ''hi''"
      and m = "str ''Invalid To number''" and c = "Code 21211"]
  obtain s where "send_whatsapp ?rej [] (str ''hi'') = Inr (PyStr s)" by blast
  then have a: "send_whatsapp ?rej [] (str ''hi'') = Inr (PyStr (str ''ERROR: Invalid To number (code 21211)''))"
    by (simp add: send_whatsapp_def create_result_def scripted_def rejected_def format_code_def
        str_int_def str_def)
  from h2 send_whatsapp_outcomes[where srv = "quiet_inbox []" and tr = "[]" and body = "str ''hi''"
      and sid = "PyStr (str ''SM1'')"]
  have b: "send_whatsapp (quiet_inbox []) [] (str ''hi'') = Inr (PyStr (str ''SM1''))" by blast
  from h3 send_whatsapp_outcomes[where srv = offline and tr = "[]" and body = "str ''hi''"]
  have c: "\<exists>ex. send_whatsapp offline [] (str ''hi'') = Inl ex" by blast
  from a b c show ?thesis by blast
qed

text \<open>
  The claim as stated, that the send never raises and so cannot abort a batch, fails when
  the HTTP client raises: the exception leaves \<open>send_whatsapp\<close> and ends the batch after
  the first record.
\<close>

theorem send_whatsapp_raises_counterexample:
  "send_whatsapp offline [] (payload_text email_a) = Inl (OtherError (str ''ConnectionError'')) \<and>
   send_batch offline [] [email_a, email_b]
     = (Some (OtherError (str ''ConnectionError'')),
        [Created (payload_text email_a) (OtherException (str ''ConnectionError''))])"
  by (simp add: offline_def scripted_def send_batch_def send_whatsapp_def create_result_def
      Let_def)


section \<open>Decoding\<close>









section \<open>The interactive session\<close>

lemma send_each_trace: "\<exists>more. snd (send_each srv tr es) = tr @ more"
proof (induction es arbitrary: tr)
  case Nil
  then show ?case by simp
next
  case (Cons e es)
  let ?oc = "messages_create srv tr (payload_text e)"
  show ?case
  proof (cases "\<exists>ex. ?oc = OtherException ex")
    case True
    then obtain ex where "?oc = OtherException ex" by blast
    from send_each_raises[OF this] show ?thesis by simp
  next
    case False
    then have "send_each srv tr (e # es) = send_each srv (tr @ record_calls e ?oc) es"
      by (intro send_each_step) blast
    moreover from Cons.IH[of "tr @ record_calls e ?oc"]
    obtain more where "snd (send_each srv (tr @ record_calls e ?oc) es) = (tr @ record_calls e ?oc) @ more"
      by blast
    ultimately have "snd (send_each srv tr (e # es)) = tr @ (record_calls e ?oc @ more)" by simp
    then show ?thesis by blast
  qed
qed

lemma send_batch_trace: "\<exists>more. snd (send_batch srv tr es) = tr @ more"
  using send_each_trace[of srv tr es] by (simp add: send_batch_def)

lemma send_batch_ext: "send_batch srv tr es = (e, t) \<Longrightarrow> \<exists>m. t = tr @ m"
  using send_batch_trace[of srv tr es] by simp

lemma iteration_extends:
  assumes "fetch_unseen lib srv tr = (r, tr1)"
  shows "\<exists>fl said m ins'. iteration lib srv tr ins = (fl, said, tr1 @ m, ins')"
proof (cases "\<exists>emails c cf rest selected. r = Inr emails \<and> ins = c # cf # rest \<and>
    lower (strip c) \<noteq> str ''q'' \<and> lower (strip c) \<noteq> str ''r'' \<and> emails \<noteq> [] \<and>
    select (lower (strip c)) emails = Some selected \<and> lower (strip cf) = str ''y''")
  case True
  then obtain emails c cf rest selected where c: "r = Inr emails" "ins = c # cf # rest"
    "lower (strip c) \<noteq> str ''q''" "lower (strip c) \<noteq> str ''r''" "emails \<noteq> []"
    "select (lower (strip c)) emails = Some selected" "lower (strip cf) = str ''y''" by blast
  obtain e t where sb: "send_batch srv tr1 selected = (e, t)" by (cases "send_batch srv tr1 selected")
  from send_batch_ext[OF sb] obtain m where t: "t = tr1 @ m" by blast
  have "\<exists>fl ins'. iteration lib srv tr ins = (fl, Dispatched, t, ins')"
    using assms c sb by (auto simp: iteration_def Let_def split: option.splits list.splits)
  with t show ?thesis by blast
next
  case False
  then have "\<exists>fl said ins'. iteration lib srv tr ins = (fl, said, tr1, ins')"
    using assms unfolding iteration_def Let_def
    by (auto split: sum.splits list.splits option.splits)
  then show ?thesis by (metis append_Nil2)
qed

lemma iteration_trace:
  "\<exists>fl said more ins'. iteration lib srv tr ins = (fl, said, tr @ [Selected, Searched] @ more, ins')"
proof -
  obtain r tr1 where f: "fetch_unseen lib srv tr = (r, tr1)" by (cases "fetch_unseen lib srv tr")
  from fetch_unseen_trace[of lib srv tr] f obtain m1 where tr1: "tr1 = tr @ [Selected, Searched] @ m1"
    by auto
  from iteration_extends[OF f, of ins] obtain fl said m ins'
    where "iteration lib srv tr ins = (fl, said, tr1 @ m, ins')" by blast
  with tr1 have "iteration lib srv tr ins = (fl, said, tr @ [Selected, Searched] @ (m1 @ m), ins')"
    by simp
  then show ?thesis by blast
qed

lemma fetch_unseen_no_dispatch:
  assumes "fetch_unseen lib srv tr = (r, tr1)"
  shows "dispatches tr1 = dispatches tr"
proof -
  from fetch_unseen_trace[of lib srv tr] assms obtain more
    where "tr1 = tr @ [Selected, Searched] @ more" "dispatches more = []" by auto
  then show ?thesis by (simp add: dispatches_def)
qed

lemma select_invalid:
  assumes "choice \<notin> {str ''1'', str ''2'', str ''3''}"
  shows "select choice emails = None"
  using assms by (simp add: select_def)

text \<open>
  C7, as amended. An operator token that, trimmed and lower-cased, is none of \<open>q\<close>, \<open>r\<close>,
  \<open>1\<close>, \<open>2\<close>, \<open>3\<close> is never mapped to a selection: the pass ends with "Invalid option" (with
  "No unread messages to send" when the unread set is empty), nothing is sent and no seen
  flag is set, and the loop starts its next pass, which polls the mailbox again (select and
  search) before it prompts: the next prompt is over the newly fetched unread set.
\<close>

theorem invalid_choice_rejected:
  assumes "fetch_unseen lib srv tr = (Inr emails, tr1)"
    and "lower (strip c) \<notin> {str ''q'', str ''r'', str ''1'', str ''2'', str ''3''}"
  shows "iteration lib srv tr (c # ins)
           = (Continue, if emails = [] then NoUnread else InvalidOption, tr1, ins) \<and>
         dispatches tr1 = dispatches tr \<and>
         run lib srv tr (c # ins) = run lib srv tr1 ins \<and>
         (\<exists>fl said more ins'.
            iteration lib srv tr1 ins = (fl, said, tr1 @ [Selected, Searched] @ more, ins'))"
proof -
  from assms(2) have nq: "lower (strip c) \<noteq> str ''q''" and nr: "lower (strip c) \<noteq> str ''r''"
    and sel: "select (lower (strip c)) emails = None"
    by (simp_all add: select_invalid)
  have it: "iteration lib srv tr (c # ins)
           = (Continue, if emails = [] then NoUnread else InvalidOption, tr1, ins)"
    using assms(1) nq nr sel by (simp add: iteration_def Let_def)
  have again: "run lib srv tr (c # ins) = run lib srv tr1 ins"
    by (subst run.simps) (simp add: it)
  from it fetch_unseen_no_dispatch[OF assms(1)] again iteration_trace[of lib srv tr1 ins]
  show ?thesis by blast
qed


lemmas str_defs = str_def strip_def lower_def is_space_def Let_def

lemma fetch_moving_first:
  "fetch_unseen sample_lib moving_inbox [] = (Inr [email_a], [Selected, Searched, Fetched (bytes ''1'')])"
  by (simp add: moving_inbox_def sample_defs py_defs model_defs)

lemma fetch_moving_second:
  "fetch_unseen sample_lib moving_inbox [Selected, Searched, Fetched (bytes ''1'')]
     = (Inr [email_b], [Selected, Searched, Fetched (bytes ''1''), Selected, Searched, Fetched (bytes ''2'')])"
  by (simp add: moving_inbox_def sample_defs py_defs model_defs)

theorem invalid_choice_rejected_witness:
  "iteration sample_lib moving_inbox [] [str ''x'', str ''q'']
     = (Continue, InvalidOption, [Selected, Searched, Fetched (bytes ''1'')], [str ''q'']) \<and>
   dispatches [Selected, Searched, Fetched (bytes ''1'')] = [] \<and>
   interactive_loop sample_lib moving_inbox [str ''x'', str ''q'']
     = (None, [Selected, Searched, Fetched (bytes ''1''), Selected, Searched, Fetched (bytes ''2''),
               LoggedOut])"
proof -
  let ?t1 = "[Selected, Searched, Fetched (bytes ''1'')]"
  have h: "lower (strip (str ''x'')) \<notin> {str ''q'', str ''r'', str ''1'', str ''2'', str ''3''}"
    by (simp add: py_defs)
  note t = invalid_choice_rejected[OF fetch_moving_first h, of "[str ''q'']"]
  from t have a: "iteration sample_lib moving_inbox [] [str ''x'', str ''q'']
     = (Continue, InvalidOption, ?t1, [str ''q''])"
    by (simp add: email_a_def)
  from t have b: "dispatches ?t1 = []"
    by (simp add: dispatches_def)
  from t have c: "run sample_lib moving_inbox [] [str ''x'', str ''q'']
     = run sample_lib moving_inbox ?t1 [str ''q'']" by blast
  have d: "run sample_lib moving_inbox ?t1 [str ''q'']
     = (None, [Selected, Searched, Fetched (bytes ''1''), Selected, Searched, Fetched (bytes ''2'')])"
    by (subst run.simps) (simp add: iteration_def fetch_moving_second str_defs)
  from c d have e: "interactive_loop sample_lib moving_inbox [str ''x'', str ''q'']
     = (None, [Selected, Searched, Fetched (bytes ''1''), Selected, Searched, Fetched (bytes ''2''),
               LoggedOut])"
    by (simp add: interactive_loop_def)
  from a b e show ?thesis by blast
qed

text \<open>
  The claim as stated, that the session prompts again over the same unread set, fails when
  the mailbox changes between the two polls: the set shown when the invalid token was typed
  held message 1, and the choice \<open>1\<close> typed next sends message 2.
\<close>

theorem invalid_choice_refetches_counterexample:
  "fetch_unseen sample_lib moving_inbox [] = (Inr [email_a], [Selected, Searched, Fetched (bytes ''1'')]) \<and>
   interactive_loop sample_lib moving_inbox [str ''x'', str ''1'', str ''y'', str ''n'']
     = (None, [Selected, Searched, Fetched (bytes ''1''), Selected, Searched, Fetched (bytes ''2''),
               Created (payload_text email_b) (Returned (PyStr (str ''SM1''))), Stored (bytes ''2''),
               LoggedOut]) \<and>
   payload_text email_b \<noteq> payload_text email_a"
proof -
  let ?t1 = "[Selected, Searched, Fetched (bytes ''1'')]"
  let ?t2 = "[Selected, Searched, Fetched (bytes ''1''), Selected, Searched, Fetched (bytes ''2'')]"
  have i1: "iteration sample_lib moving_inbox [] [str ''x'', str ''1'', str ''y'', str ''n'']
     = (Continue, InvalidOption, ?t1, [str ''1'', str ''y'', str ''n''])"
    by (simp add: iteration_def fetch_moving_first py_defs select_def)
  have sb: "send_batch moving_inbox ?t2 [email_b]
     = (None, ?t2 @ [Created (payload_text email_b) (Returned (PyStr (str ''SM1''))), Stored (bytes ''2'')])"
    by (simp add: send_batch_def send_whatsapp_def create_result_def delivered_def moving_inbox_def
        scripted_def startswith_def str_def Let_def email_b_def)
  have i2: "iteration sample_lib moving_inbox ?t1 [str ''1'', str ''y'', str ''n'']
     = (Break, Dispatched,
        ?t2 @ [Created (payload_text email_b) (Returned (PyStr (str ''SM1''))), Stored (bytes ''2'')], [])"
    by (simp add: iteration_def fetch_moving_second sb str_defs select_def slice_from_def)
  have r: "run sample_lib moving_inbox [] [str ''x'', str ''1'', str ''y'', str ''n'']
     = (None, ?t2 @ [Created (payload_text email_b) (Returned (PyStr (str ''SM1''))), Stored (bytes ''2'')])"
  proof -
    have "run sample_lib moving_inbox [] [str ''x'', str ''1'', str ''y'', str ''n'']
        = run sample_lib moving_inbox ?t1 [str ''1'', str ''y'', str ''n'']"
      by (subst run.simps) (simp add: i1)
    also have "\<dots> = (None, ?t2 @ [Created (payload_text email_b) (Returned (PyStr (str ''SM1''))),
        Stored (bytes ''2'')])"
      by (subst run.simps) (simp add: i2)
    finally show ?thesis .
  qed
  have ne: "payload_text email_b \<noteq> payload_text email_a"
    by (simp add: payload_text_def email_a_def email_b_def str_def)
  from fetch_moving_first r ne show ?thesis
    by (simp add: interactive_loop_def)
qed

lemma select_Some_choice:
  assumes "select choice emails = Some selected"
  shows "choice \<noteq> str ''q'' \<and> choice \<noteq> str ''r''"
  using assms by (auto simp: select_def str_def split: if_splits)

text \<open>
  C8. At the confirmation prompt of a pass with a valid selection, any answer that, trimmed
  and lower-cased, is not \<open>y\<close> cancels the dispatch: the calls made in the pass are those
  of the poll alone, so the gateway send is not invoked for any selected record and no seen
  flag is set; the pass goes on to the continue prompt.
\<close>

theorem cancel_sends_nothing:
  assumes "fetch_unseen lib srv tr = (Inr emails, tr1)"
    and "emails \<noteq> []"
    and "select (lower (strip c)) emails = Some selected"
    and "lower (strip cf) \<noteq> str ''y''"
  shows "iteration lib srv tr (c # cf # rest)
           = (case rest of
                [] \<Rightarrow> (Raise EOFError, Cancelled, tr1, [])
              | ct # ins3 \<Rightarrow>
                  (if lower (strip ct) = str ''y'' then Continue else Break, Cancelled, tr1, ins3)) \<and>
         dispatches tr1 = dispatches tr"
proof -
  from select_Some_choice[OF assms(3)]
  have nq: "lower (strip c) \<noteq> str ''q''" and nr: "lower (strip c) \<noteq> str ''r''" by blast+
  have "iteration lib srv tr (c # cf # rest)
           = (case rest of
                [] \<Rightarrow> (Raise EOFError, Cancelled, tr1, [])
              | ct # ins3 \<Rightarrow>
                  (if lower (strip ct) = str ''y'' then Continue else Break, Cancelled, tr1, ins3))"
    using assms nq nr by (simp add: iteration_def Let_def split: list.splits)
  with fetch_unseen_no_dispatch[OF assms(1)] show ?thesis by blast
qed

lemma fetch_quiet_both:
  "fetch_unseen sample_lib (quiet_inbox (bytes ''1 2'')) []
     = (Inr [email_a, email_b], [Selected, Searched, Fetched (bytes ''1''), Fetched (bytes ''2'')])"
  by (simp add: sample_defs py_defs model_defs)

theorem cancel_sends_nothing_witness:
  "iteration sample_lib (quiet_inbox (bytes ''1 2'')) [] [str ''3'', str '' N '', str ''n'']
     = (Break, Cancelled, [Selected, Searched, Fetched (bytes ''1''), Fetched (bytes ''2'')], []) \<and>
   dispatches [Selected, Searched, Fetched (bytes ''1''), Fetched (bytes ''2'')] = [] \<and>
   interactive_loop sample_lib (quiet_inbox (bytes ''1 2'')) [str ''3'', str '' N '', str ''n'']
     = (None, [Selected, Searched, Fetched (bytes ''1''), Fetched (bytes ''2''), LoggedOut])"
proof -
  let ?t1 = "[Selected, Searched, Fetched (bytes ''1''), Fetched (bytes ''2'')]"
  have h2: "[email_a, email_b] \<noteq> []" by simp
  have h3: "select (lower (strip (str ''3''))) [email_a, email_b] = Some [email_a, email_b]"
    by (simp add: py_defs select_def)
  have h4: "lower (strip (str '' N '')) \<noteq> str ''y''"
    by (simp add: py_defs)
  note t = cancel_sends_nothing[OF fetch_quiet_both h2 h3 h4, of "[str ''n'']"]
  from t have a: "iteration sample_lib (quiet_inbox (bytes ''1 2'')) [] [str ''3'', str '' N '', str ''n'']
     = (Break, Cancelled, ?t1, [])"
    by (simp add: py_defs)
  from t have b: "dispatches ?t1 = []"
    by (simp add: dispatches_def)
  have c: "run sample_lib (quiet_inbox (bytes ''1 2'')) [] [str ''3'', str '' N '', str ''n'']
     = (None, ?t1)"
    by (subst run.simps) (simp add: a)
  from a b c show ?thesis
    by (simp add: interactive_loop_def)
qed


end
